theory Spec2Isabelle
  imports Complex_Main "HOL-Library.AList" "HOL-Library.Sublist"
begin

section \<open>Fluor-Tools: the identifier map (tools/mapper.py)\<close>

text \<open>
  The embedding follows \<^verbatim>\<open>src/tools/mapper.py\<close>, \<^verbatim>\<open>src/tools/abstract.py\<close> and
  \<^verbatim>\<open>src/tools/__init__.py\<close>. Python objects are records, the methods of \<^verbatim>\<open>Map\<close>
  take the map and return the map they leave behind together with the exception they
  raise, if any: a Python method that raises has already performed every mutation that
  precedes the \<^verbatim>\<open>raise\<close>, so the state is returned in both cases.

  Several classes of the source share attribute names (\<^verbatim>\<open>source\<close>, \<^verbatim>\<open>valid\<close>,
  \<^verbatim>\<open>names\<close>, \<^verbatim>\<open>identifier\<close>); the record fields carry a prefix that names the class:
  \<open>id_\<close> for \<^verbatim>\<open>Identifier\<close>, \<open>hd_\<close> for \<^verbatim>\<open>Header\<close>, \<open>map_\<close> for \<^verbatim>\<open>Map\<close>,
  \<open>aid_\<close> for \<^verbatim>\<open>AbstractID\<close> and \<open>data_\<close> for \<^verbatim>\<open>AbstractData\<close>.
\<close>

subsection \<open>Data model\<close>

text \<open>\<^verbatim>\<open>class Source(Enum)\<close> of \<^verbatim>\<open>tools/__init__.py\<close>. The class defines no
  \<^verbatim>\<open>__bool__\<close>, so every member is truthy.\<close>

datatype Source = none | source | bd | biolegend | biotium | chroma | fluorofinder
  | fpbase | thermofisher

text \<open>The exceptions that the modelled code can raise.\<close>

datatype error = ValueError | KeyError | AttributeError | IndexError | NameError

text \<open>\<^verbatim>\<open>class Identifier\<close>: \<^verbatim>\<open>identifier\<close> and \<^verbatim>\<open>note\<close> are \<^verbatim>\<open>str\<close> or \<^verbatim>\<open>None\<close>.\<close>

record Identifier =
  id_source :: Source
  id_identifier :: "string option"
  id_note :: "string option"

text \<open>\<^verbatim>\<open>Identifier.__eq__\<close>: the note takes no part in the comparison.\<close>

definition Identifier_eq :: "Identifier \<Rightarrow> Identifier \<Rightarrow> bool" where
  "Identifier_eq self other =
     (if id_source self \<noteq> id_source other then False
      else if id_identifier self \<noteq> id_identifier other then False
      else True)"

text \<open>\<^verbatim>\<open>Identifier(source, identifier)\<close>: the constructor leaves the note \<^verbatim>\<open>None\<close>.\<close>

definition Identifier_init :: "Source \<Rightarrow> string option \<Rightarrow> Identifier" where
  "Identifier_init src ident = \<lparr>id_source = src, id_identifier = ident, id_note = None\<rparr>"

text \<open>\<^verbatim>\<open>class Header\<close>.\<close>

record Header =
  hd_valid :: bool
  hd_header :: string
  hd_source :: "Identifier option"
  hd_names :: "string list"
  hd_identifiers :: "Identifier list"

text \<open>\<^verbatim>\<open>Header(header)\<close>.\<close>

definition Header_init :: "string \<Rightarrow> Header" where
  "Header_init header =
     \<lparr>hd_valid = True, hd_header = header, hd_source = None, hd_names = [], hd_identifiers = []\<rparr>"

text \<open>
  \<^verbatim>\<open>class Map\<close>. The attribute \<^verbatim>\<open>map\<close> is a Python \<^verbatim>\<open>dict\<close>, whose iteration order
  is the insertion order: it is an association list, read with \<open>map_of\<close>, written with
  \<open>AList.update\<close> (an existing key keeps its place, a new key goes to the end) and
  \<open>AList.delete\<close>. A \<^verbatim>\<open>dict\<close> holds each key once: the association lists that stand
  for a Python state have distinct keys. \<^verbatim>\<open>Map.source\<close> is \<^verbatim>\<open>Source.none\<close> after the
  constructor and \<^verbatim>\<open>None\<close> after the first lines of \<^verbatim>\<open>append\<close>, hence the option.
\<close>

record Map =
  map_map :: "(string \<times> Header) list"
  map_source :: "Source option"
  map_unresolved :: "Identifier list"
  map_dangled :: "Identifier list"

definition Map_init :: Map where
  "Map_init = \<lparr>map_map = [], map_source = Some none, map_unresolved = [], map_dangled = []\<rparr>"

text \<open>\<^verbatim>\<open>class AbstractID\<close> of \<^verbatim>\<open>tools/abstract.py\<close>, with its property
  \<^verbatim>\<open>identifier\<close>, which raises \<^verbatim>\<open>AttributeError\<close> when \<^verbatim>\<open>_identifier\<close> is falsy
  (\<^verbatim>\<open>None\<close> or the empty string).\<close>

record AbstractID =
  aid_source :: Source
  aid_identifier :: "string option"

definition AbstractID_identifier :: "AbstractID \<Rightarrow> error + string" where
  "AbstractID_identifier self =
     (case aid_identifier self of
        None \<Rightarrow> Inl AttributeError
      | Some s \<Rightarrow> if s = [] then Inl AttributeError else Inr s)"

text \<open>\<^verbatim>\<open>class AbstractData\<close>: \<^verbatim>\<open>Map.append\<close> reads \<^verbatim>\<open>data_id\<close> and \<^verbatim>\<open>names\<close> only.\<close>

record Data =
  data_id :: AbstractID
  data_names :: "string list"

subsection \<open>Python sets of identifiers\<close>

text \<open>
  A Python \<^verbatim>\<open>set\<close> of identifiers holds at most one element of each class of
  \<^verbatim>\<open>__eq__\<close> (\<^verbatim>\<open>__hash__\<close> agrees with it) and keeps the element that came first. The
  model is a list without \<open>Identifier_eq\<close>-duplicates in insertion order. Python gives no
  order for the iteration over a set; the theorems below speak of membership only.
\<close>

definition set_contains :: "Identifier list \<Rightarrow> Identifier \<Rightarrow> bool" where
  "set_contains S x = list_ex (Identifier_eq x) S"

definition set_add :: "Identifier \<Rightarrow> Identifier list \<Rightarrow> Identifier list" where
  "set_add x S = (if set_contains S x then S else S @ [x])"

definition set_difference :: "Identifier list \<Rightarrow> Identifier list \<Rightarrow> Identifier list" where
  "set_difference S T = filter (\<lambda>x. \<not> set_contains T x) S"

subsection \<open>\<^verbatim>\<open>str.lower\<close>\<close>

text \<open>
  \<^verbatim>\<open>str.lower\<close> is a builtin of Python that lowers every cased letter of Unicode. It
  is not defined here: the functions that call it take it as their first argument
  \<open>lower\<close>, and every property below is proved for every function \<open>lower\<close>. The strings
  of the model are the strings of Python in any injective encoding (equality of strings
  is all that the map needs beside \<open>lower\<close>).
\<close>

subsection \<open>\<^verbatim>\<open>Map.append\<close>\<close>

text \<open>
  The two lookup tables of \<^verbatim>\<open>append\<close> (lines 346-355):
  \<^verbatim>\<open>name_to_header[name.lower()] = header\<close> for every name of every header, a later
  assignment overwriting an earlier one, and the set \<^verbatim>\<open>map_identifiers\<close> of the
  identifiers of the batch's source.
\<close>

definition name_to_header_of :: "(string \<Rightarrow> string) \<Rightarrow> (string \<times> Header) list \<Rightarrow> (string \<rightharpoonup> string)" where
  "name_to_header_of lower m =
     fold (\<lambda>(header, h) d. fold (\<lambda>name d'. d'(lower name \<mapsto> header)) (hd_names h) d)
       m Map.empty"

definition map_identifiers_of :: "Source \<Rightarrow> (string \<times> Header) list \<Rightarrow> Identifier list" where
  "map_identifiers_of src m =
     fold (\<lambda>(header, h) S.
             fold (\<lambda>identifier S'. if id_source identifier = src then set_add identifier S' else S')
               (hd_identifiers h) S)
       m []"

text \<open>The inner loop over \<^verbatim>\<open>item.names\<close> (lines 372-382): the first name found in the
  table decides.\<close>

fun find_header :: "(string \<Rightarrow> string) \<Rightarrow> (string \<rightharpoonup> string) \<Rightarrow> string list \<Rightarrow> string option" where
  "find_header lower d [] = None"
| "find_header lower d (name # rest) =
     (case d (lower name) of
        Some header \<Rightarrow> Some header
      | None \<Rightarrow> find_header lower d rest)"

text \<open>
  The loop over the batch (lines 358-385). Its state is the map and the set
  \<^verbatim>\<open>data_identifiers\<close>; a \<^verbatim>\<open>raise\<close> leaves the loop with the state reached so far.
  \<^verbatim>\<open>self.map[header]\<close> raises \<^verbatim>\<open>KeyError\<close> on a missing key.
\<close>

fun resolve :: "(string \<Rightarrow> string) \<Rightarrow> Source \<Rightarrow> (string \<rightharpoonup> string) \<Rightarrow> Identifier list \<Rightarrow> Data list
    \<Rightarrow> Map \<times> Identifier list \<Rightarrow> (Map \<times> Identifier list) \<times> error option" where
  "resolve lower src d mids [] st = (st, None)"
| "resolve lower src d mids (item # items) (self, dids) =
     (if Some (aid_source (data_id item)) \<noteq> map_source self
      then ((self, dids), Some ValueError)
      else
        (case AbstractID_identifier (data_id item) of
           Inl e \<Rightarrow> ((self, dids), Some e)
         | Inr s \<Rightarrow>
             (let identifier = Identifier_init src (Some s);
                  dids' = set_add identifier dids
              in if set_contains mids identifier
                 then resolve lower src d mids items (self, dids')
                 else
                   (case find_header lower d (data_names item) of
                      Some header \<Rightarrow>
                        (case map_of (map_map self) header of
                           None \<Rightarrow> ((self, dids'), Some KeyError)
                         | Some h \<Rightarrow>
                             resolve lower src d mids items
                               (self\<lparr>map_map :=
                                   AList.update header
                                     (h\<lparr>hd_identifiers := hd_identifiers h @ [identifier]\<rparr>)
                                     (map_map self)\<rparr>,
                                dids'))
                    | None \<Rightarrow>
                        resolve lower src d mids items
                          (self\<lparr>map_unresolved := map_unresolved self @ [identifier]\<rparr>,
                           dids')))))"

text \<open>
  \<^verbatim>\<open>Map.append(data)\<close>. \<^verbatim>\<open>data\<close> is a collection or \<^verbatim>\<open>None\<close>; the collection is
  given by the list of its values in iteration order (\<^verbatim>\<open>data[0]\<close> is the first of
  them). \<^verbatim>\<open>not data\<close> holds of \<^verbatim>\<open>None\<close> and of the empty collection.
\<close>

definition Map_append :: "(string \<Rightarrow> string) \<Rightarrow> Data list option \<Rightarrow> Map \<Rightarrow> Map \<times> error option" where
  "Map_append lower data self0 =
     (let self = self0\<lparr>map_source := None, map_unresolved := [], map_dangled := []\<rparr>
      in case data of
           None \<Rightarrow> (self, None)
         | Some [] \<Rightarrow> (self, None)
         | Some (d0 # ds) \<Rightarrow>
             (let src = aid_source (data_id d0)
              in if src = none then (self, Some ValueError)
                 else
                   (let self1 = self\<lparr>map_source := Some src\<rparr>;
                        name_to_header = name_to_header_of lower (map_map self1);
                        map_identifiers = map_identifiers_of src (map_map self1)
                    in case resolve lower src name_to_header map_identifiers (d0 # ds) (self1, []) of
                         ((self2, data_identifiers), Some e) \<Rightarrow> (self2, Some e)
                       | ((self2, data_identifiers), None) \<Rightarrow>
                           (self2\<lparr>map_dangled :=
                               set_difference map_identifiers data_identifiers\<rparr>, None))))"

subsection \<open>\<^verbatim>\<open>Map.delete\<close>\<close>

text \<open>
  The loop \<^verbatim>\<open>for i in range(len(identifiers), 0, -1)\<close> of lines 425-428: the range is
  fixed when the loop starts, the index read is \<^verbatim>\<open>i-1\<close>, and a read beyond the end of
  the list raises \<^verbatim>\<open>IndexError\<close>.
\<close>

fun delete_loop :: "nat \<Rightarrow> Identifier \<Rightarrow> Identifier list \<times> bool
    \<Rightarrow> (Identifier list \<times> bool) \<times> error option" where
  "delete_loop 0 identifier st = (st, None)"
| "delete_loop (Suc j) identifier (ids, is_modified) =
     (if j < length ids
      then (if Identifier_eq (ids ! j) identifier
            then delete_loop j identifier (take j ids @ drop (Suc j) ids, True)
            else delete_loop j identifier (ids, is_modified))
      else ((ids, is_modified), Some IndexError))"

text \<open>Lines 435-436: the header's \<^verbatim>\<open>source\<close> is cleared when it is the identifier.\<close>

definition clear_source :: "Identifier \<Rightarrow> Header \<Rightarrow> Header" where
  "clear_source identifier h =
     (case hd_source h of
        None \<Rightarrow> h
      | Some s \<Rightarrow> if Identifier_eq s identifier then h\<lparr>hd_source := None\<rparr> else h)"

definition Map_delete :: "string \<Rightarrow> Identifier \<Rightarrow> Map \<Rightarrow> Map \<times> error option" where
  "Map_delete header identifier self =
     (case map_of (map_map self) header of
        None \<Rightarrow> (self, Some KeyError)
      | Some h \<Rightarrow>
          (case delete_loop (length (hd_identifiers h)) identifier (hd_identifiers h, False) of
             ((ids, is_modified), Some e) \<Rightarrow>
               (self\<lparr>map_map := AList.update header (h\<lparr>hd_identifiers := ids\<rparr>) (map_map self)\<rparr>,
                Some e)
           | ((ids, is_modified), None) \<Rightarrow>
               (let h1 = h\<lparr>hd_identifiers := ids\<rparr>
                in if \<not> is_modified
                   then (self\<lparr>map_map := AList.update header h1 (map_map self)\<rparr>, None)
                   else
                     (let h2 = clear_source identifier h1
                      in if length (hd_identifiers h2) = 0
                         then (self\<lparr>map_map := AList.delete header (map_map self)\<rparr>, None)
                         else (self\<lparr>map_map := AList.update header h2 (map_map self)\<rparr>,
                               None)))))"

subsection \<open>Notions for the properties of \<^verbatim>\<open>Map.append\<close>\<close>

text \<open>The identifier that the loop builds for a record whose identifier is present
  (\<^verbatim>\<open>Identifier(source, item.data_id.identifier)\<close>).\<close>

definition batch_identifier :: "Source \<Rightarrow> Data \<Rightarrow> Identifier" where
  "batch_identifier src item = Identifier_init src (aid_identifier (data_id item))"

text \<open>A record has an identifier when the property \<^verbatim>\<open>identifier\<close> does not raise.\<close>

definition has_identifier :: "Data \<Rightarrow> bool" where
  "has_identifier item =
     (case aid_identifier (data_id item) of None \<Rightarrow> False | Some s \<Rightarrow> s \<noteq> [])"

text \<open>The identifiers that a run of the loop appends to the header with key \<open>k\<close>, and
  those that it appends to the unresolved list, in the order of the batch.\<close>

definition linked_to ::
    "(string \<Rightarrow> string) \<Rightarrow> (string \<rightharpoonup> string) \<Rightarrow> Identifier list \<Rightarrow> Source \<Rightarrow> string \<Rightarrow> Data list \<Rightarrow> Identifier list" where
  "linked_to lower d mids src k items =
     map (batch_identifier src)
       (filter (\<lambda>item. \<not> set_contains mids (batch_identifier src item)
                  \<and> find_header lower d (data_names item) = Some k) items)"

definition unresolved_of ::
    "(string \<Rightarrow> string) \<Rightarrow> (string \<rightharpoonup> string) \<Rightarrow> Identifier list \<Rightarrow> Source \<Rightarrow> Data list \<Rightarrow> Identifier list" where
  "unresolved_of lower d mids src items =
     map (batch_identifier src)
       (filter (\<lambda>item. \<not> set_contains mids (batch_identifier src item)
                  \<and> find_header lower d (data_names item) = None) items)"

text \<open>How often an identifier occurs in a list (up to \<^verbatim>\<open>__eq__\<close>), and in the
  identifier lists of all headers of a map together.\<close>

definition count_identifier :: "Identifier \<Rightarrow> Identifier list \<Rightarrow> nat" where
  "count_identifier x ids = length (filter (Identifier_eq x) ids)"

definition occurrences :: "Identifier \<Rightarrow> (string \<times> Header) list \<Rightarrow> nat" where
  "occurrences x m = sum_list (map (\<lambda>(k, h). count_identifier x (hd_identifiers h)) m)"

text \<open>A header that differs from an earlier state of itself at most by identifiers added
  at the end of its list, and a map with the same keys in the same order whose headers
  have grown in this way.\<close>

definition Header_grown :: "Header \<Rightarrow> Header \<Rightarrow> bool" where
  "Header_grown h h' =
     (hd_valid h' = hd_valid h \<and> hd_header h' = hd_header h \<and> hd_source h' = hd_source h
      \<and> hd_names h' = hd_names h
      \<and> prefix (hd_identifiers h) (hd_identifiers h'))"

definition Map_grown :: "(string \<times> Header) list \<Rightarrow> (string \<times> Header) list \<Rightarrow> bool" where
  "Map_grown m m' = list_all2 (\<lambda>p p'. fst p' = fst p \<and> Header_grown (snd p) (snd p')) m m'"

text \<open>The identifiers of one source in the lists of all headers, in the order in which
  the loops of lines 349-355 meet them, and the map whose headers have received further
  identifiers at the end of their lists.\<close>

definition source_identifiers :: "Source \<Rightarrow> (string \<times> Header) list \<Rightarrow> Identifier list" where
  "source_identifiers src m =
     filter (\<lambda>i. id_source i = src) (concat (map (\<lambda>p. hd_identifiers (snd p)) m))"

definition add_links :: "(string \<Rightarrow> Identifier list) \<Rightarrow> (string \<times> Header) list \<Rightarrow> (string \<times> Header) list" where
  "add_links added m =
     map (\<lambda>p. (fst p, (snd p)\<lparr>hd_identifiers := hd_identifiers (snd p) @ added (fst p)\<rparr>)) m"




text \<open>
  Records, maps and batches for the examples. \<open>record_of\<close> is a record with a source, an
  identifier and names. \<open>EGFP_map\<close> has the header \<^verbatim>\<open>EGFP\<close> with the name
  \<^verbatim>\<open>EGFP\<close> and one identifier of the source \<^verbatim>\<open>fpbase\<close>; \<open>bare_map\<close> is the map after
  \<^verbatim>\<open>Map.new("EGFP", Identifier(Source.fpbase, "old"))\<close>, whose header has no name.
  \<open>EGFP_batch\<close> is a batch of the source \<^verbatim>\<open>fpbase\<close>: a record named as the header,
  a record whose identifier is in \<open>EGFP_map\<close> already, and a record without names.
  \<open>mystery_batch\<close> is one record of \<^verbatim>\<open>fpbase\<close>, and \<open>mixed_batch\<close> is a record of
  \<^verbatim>\<open>bd\<close> followed by a record of \<^verbatim>\<open>fpbase\<close>. The examples need no fact about
  \<open>lower\<close>: a name equal to a name of the header matches it, nothing matches a header
  without names, and a record without names matches nothing.
\<close>

definition record_of :: "Source \<Rightarrow> string \<Rightarrow> string list \<Rightarrow> Data" where
  "record_of src ident names =
     \<lparr>data_id = \<lparr>aid_source = src, aid_identifier = Some ident\<rparr>, data_names = names\<rparr>"

definition EGFP_map :: Map where
  "EGFP_map =
     Map_init\<lparr>map_map :=
       [(''EGFP'', (Header_init ''EGFP'')
           \<lparr>hd_names := [''EGFP''],
            hd_identifiers := [Identifier_init fpbase (Some ''old'')]\<rparr>)]\<rparr>"


definition EGFP_batch :: "Data list" where
  "EGFP_batch =
     [record_of fpbase ''1'' [''EGFP''], record_of fpbase ''old'' [''mystery''],
      record_of fpbase ''2'' []]"



section \<open>Fluor-Tools: the validators (tools/auditor.py)\<close>

subsection \<open>Verdicts\<close>

text \<open>
  The attribute \<^verbatim>\<open>errors\<close> of a validator is a list of strings almost everywhere, and
  a plain string in \<^verbatim>\<open>AuditAuthor.audit\<close> and in the first branch of
  \<^verbatim>\<open>AuditReference.audit\<close>. Both shapes are kept apart.
\<close>

datatype pyerrors = ErrorList "string list" | ErrorStr string

text \<open>Iterating over \<^verbatim>\<open>errors\<close> yields the list's elements, or the characters of the
  string as strings of length one.\<close>

fun error_items :: "pyerrors \<Rightarrow> string list" where
  "error_items (ErrorList es) = es"
| "error_items (ErrorStr s) = map (\<lambda>c. [c]) s"

text \<open>\<^verbatim>\<open>class AbstractAudit\<close>: the two attributes that every validator has, and the
  state that \<^verbatim>\<open>__init__\<close> leaves when it is called without data.\<close>

record AbstractAudit =
  valid :: bool
  errors :: pyerrors

definition AbstractAudit_init :: AbstractAudit where
  "AbstractAudit_init = \<lparr>valid = False, errors = ErrorList [''unchecked'']\<rparr>"

text \<open>Truthiness of a value that is \<^verbatim>\<open>None\<close> or a \<^verbatim>\<open>str\<close>, and of one that is
  \<^verbatim>\<open>None\<close> or a list.\<close>

definition str_truthy :: "string option \<Rightarrow> bool" where
  "str_truthy data = (case data of None \<Rightarrow> False | Some s \<Rightarrow> s \<noteq> [])"

definition list_truthy :: "'a list option \<Rightarrow> bool" where
  "list_truthy data = (case data of None \<Rightarrow> False | Some xs \<Rightarrow> xs \<noteq> [])"

text \<open>\<^verbatim>\<open>str(n)\<close> for a natural number, as the f-strings of the error messages print
  it.\<close>

fun str_nat :: "nat \<Rightarrow> string" where
  "str_nat n =
     (if n < 10 then [''0123456789'' ! n]
      else str_nat (n div 10) @ [''0123456789'' ! (n mod 10)])"

text \<open>\<^verbatim>\<open>s.split(sep)\<close> for a separator of one character: one part more than there are
  separators, empty parts kept.\<close>

declare str_nat.simps [simp del]

fun str_split :: "char \<Rightarrow> string \<Rightarrow> string list" where
  "str_split sep [] = [[]]"
| "str_split sep (c # cs) =
     (if c = sep then [] # str_split sep cs
      else (case str_split sep cs of
              [] \<Rightarrow> [[c]]
            | part # parts \<Rightarrow> (c # part) # parts))"

subsection \<open>\<^verbatim>\<open>AbstractAudit.reset\<close> and \<^verbatim>\<open>Auditor.reset\<close>\<close>

text \<open>
  \<^verbatim>\<open>
    def reset(self) -> None:
        valid = False
        errors.clear()
        errors.append("unchecked")
  \<close>
  The body assigns \<^verbatim>\<open>valid\<close>, which makes it a local variable of the call, and reads
  \<^verbatim>\<open>errors\<close>, which it never assigns: Python looks such a name up in the globals of the
  module and then in the builtins, and raises \<^verbatim>\<open>NameError\<close> when neither has it.
  No statement of the body touches an attribute of \<^verbatim>\<open>self\<close>.
\<close>

definition load_global :: "string list \<Rightarrow> string \<Rightarrow> error option" where
  "load_global scope name = (if name \<in> set scope then None else Some NameError)"

text \<open>The names bound at the top level of \<^verbatim>\<open>tools/auditor.py\<close> (its imports and its
  classes; the module has no other top-level statement) and the names that a module
  receives from the interpreter.\<close>

definition auditor_globals :: "string list" where
  "auditor_globals =
     [''__name__'', ''__doc__'', ''__package__'', ''__loader__'', ''__spec__'', ''__file__'',
      ''__cached__'', ''__builtins__'',
      ''annotations'', ''List'', ''Union'', ''Tuple'', ''Data'', ''Reference'',
      ''Auditor'', ''AbstractAudit'', ''AbstractAuditList'', ''AuditHeader'', ''AuditNames'',
      ''AuditName'', ''AuditEnable'', ''AuditSource'', ''AuditCategories'', ''AuditUrl'',
      ''AuditAuthor'', ''AuditAuthors'', ''AuditTitle'', ''AuditYear'', ''AuditJournal'',
      ''AuditVolume'', ''AuditIssue'', ''AuditPages'', ''AuditDOI'', ''AuditUrlPubmed'',
      ''AuditUrlDOI'', ''AuditReferences'', ''AuditReference'', ''AuditExtinctionCoefficient'',
      ''AuditQuantumYield'', ''AuditCrossSection'', ''AuditBrightness'', ''AuditBrightnessBin'',
      ''AuditSpectrumWavelength'', ''AuditSpectrumIntensity'', ''AuditSpectrum'']"

text \<open>The builtins of Python 3: constants, functions and types, exceptions and
  warnings.\<close>

definition python_builtins :: "string list" where
  "python_builtins =
     [''False'', ''True'', ''None'', ''NotImplemented'', ''Ellipsis'', ''__debug__'',
      ''__import__'', ''__build_class__'', ''copyright'', ''credits'', ''license'', ''exit'',
      ''quit'',
      ''abs'', ''all'', ''any'', ''ascii'', ''bin'', ''bool'', ''breakpoint'', ''bytearray'',
      ''bytes'', ''callable'', ''chr'', ''classmethod'', ''compile'', ''complex'', ''delattr'',
      ''dict'', ''dir'', ''divmod'', ''enumerate'', ''eval'', ''exec'', ''filter'', ''float'',
      ''format'', ''frozenset'', ''getattr'', ''globals'', ''hasattr'', ''hash'', ''help'',
      ''hex'', ''id'', ''input'', ''int'', ''isinstance'', ''issubclass'', ''iter'', ''len'',
      ''list'', ''locals'', ''map'', ''max'', ''memoryview'', ''min'', ''next'', ''object'',
      ''oct'', ''open'', ''ord'', ''pow'', ''print'', ''property'', ''range'', ''repr'',
      ''reversed'', ''round'', ''set'', ''setattr'', ''slice'', ''sorted'', ''staticmethod'',
      ''str'', ''sum'', ''super'', ''tuple'', ''type'', ''vars'', ''zip'',
      ''BaseException'', ''Exception'', ''ArithmeticError'', ''AssertionError'',
      ''AttributeError'', ''BlockingIOError'', ''BrokenPipeError'', ''BufferError'',
      ''BytesWarning'', ''ChildProcessError'', ''ConnectionAbortedError'', ''ConnectionError'',
      ''ConnectionRefusedError'', ''ConnectionResetError'', ''DeprecationWarning'', ''EOFError'',
      ''EnvironmentError'', ''FileExistsError'', ''FileNotFoundError'', ''FloatingPointError'',
      ''FutureWarning'', ''GeneratorExit'', ''IOError'', ''ImportError'', ''ImportWarning'',
      ''IndentationError'', ''IndexError'', ''InterruptedError'', ''IsADirectoryError'',
      ''KeyError'', ''KeyboardInterrupt'', ''LookupError'', ''MemoryError'',
      ''ModuleNotFoundError'', ''NameError'', ''NotADirectoryError'', ''NotImplementedError'',
      ''OSError'', ''OverflowError'', ''PendingDeprecationWarning'', ''PermissionError'',
      ''ProcessLookupError'', ''RecursionError'', ''ReferenceError'', ''ResourceWarning'',
      ''RuntimeError'', ''RuntimeWarning'', ''StopAsyncIteration'', ''StopIteration'',
      ''SyntaxError'', ''SyntaxWarning'', ''SystemError'', ''SystemExit'', ''TabError'',
      ''TimeoutError'', ''TypeError'', ''UnboundLocalError'', ''UnicodeDecodeError'',
      ''UnicodeEncodeError'', ''UnicodeError'', ''UnicodeTranslateError'', ''UnicodeWarning'',
      ''UserWarning'', ''ValueError'', ''Warning'', ''ZeroDivisionError'']"

text \<open>
  \<^verbatim>\<open>AbstractAudit.reset\<close> in a scope (globals and builtins). Were \<^verbatim>\<open>errors\<close> found
  there, the two calls would act on that object and the method would return; the
  validator itself is the same after the call in both cases, since \<^verbatim>\<open>valid = False\<close>
  binds a local.
\<close>

definition AbstractAudit_reset :: "string list \<Rightarrow> AbstractAudit \<Rightarrow> AbstractAudit \<times> error option" where
  "AbstractAudit_reset scope self =
     (case load_global scope ''errors'' of
        Some e \<Rightarrow> (self, Some e)
      | None \<Rightarrow> (self, None))"

text \<open>\<^verbatim>\<open>class AbstractAuditList\<close> with its own, working \<^verbatim>\<open>reset\<close>.\<close>

record 'a AbstractAuditList = AbstractAudit +
  audits :: "'a list"

definition AbstractAuditList_reset :: "'a AbstractAuditList \<Rightarrow> 'a AbstractAuditList" where
  "AbstractAuditList_reset self =
     self\<lparr>valid := False, errors := ErrorList [''unchecked''], audits := []\<rparr>"

text \<open>\<^verbatim>\<open>class AuditSpectrum\<close>: its \<^verbatim>\<open>reset\<close> resets its own verdict and then calls the
  inherited \<^verbatim>\<open>AbstractAudit.reset\<close> of the wavelength validator.\<close>

record AuditSpectrum = AbstractAudit +
  wavelength_missing :: bool
  wavelength :: AbstractAudit
  intensity_missing :: bool
  intensity :: AbstractAudit

definition AuditSpectrum_reset :: "string list \<Rightarrow> AuditSpectrum \<Rightarrow> AuditSpectrum \<times> error option" where
  "AuditSpectrum_reset scope self0 =
     (let self = self0\<lparr>valid := False, errors := ErrorList [''unchecked''],
                       wavelength_missing := True\<rparr>
      in case AbstractAudit_reset scope (wavelength self) of
           (w, Some e) \<Rightarrow> (self\<lparr>wavelength := w\<rparr>, Some e)
         | (w, None) \<Rightarrow>
             (let self1 = self\<lparr>wavelength := w, intensity_missing := True\<rparr>
              in case AbstractAudit_reset scope (intensity self1) of
                   (i, e) \<Rightarrow> (self1\<lparr>intensity := i\<rparr>, e)))"

text \<open>A sequence of statements, each of which may raise: the first exception ends the
  sequence with the state reached.\<close>

fun run_steps :: "('s \<Rightarrow> 's \<times> error option) list \<Rightarrow> 's \<Rightarrow> 's \<times> error option" where
  "run_steps [] s = (s, None)"
| "run_steps (f # fs) s =
     (case f s of
        (s', Some e) \<Rightarrow> (s', Some e)
      | (s', None) \<Rightarrow> run_steps fs s')"

subsection \<open>\<^verbatim>\<open>AuditHeader.audit\<close>\<close>

text \<open>The two string literals of the method, the counters of the loop over
  \<^verbatim>\<open>enumerate(data)\<close> (lines 358-378), and one turn of the loop with its
  \<^verbatim>\<open>if\<close>/\<^verbatim>\<open>elif\<close> chain in the order of the source. For a string \<^verbatim>\<open>letter\<close> of
  length one, \<^verbatim>\<open>letter in "abc"\<close> asks whether the character occurs in the literal.\<close>

definition ascii_lowercase :: string where
  "ascii_lowercase = ''abcdefghijklmnopqrstuvwxyz''"

definition ascii_uppercase_digits :: string where
  "ascii_uppercase_digits = ''ABCDEFGHIJKLMNOPQRSTUVWXYZ0123456789''"

record header_counters =
  error_char_lower :: nat
  error_char_illegal :: nat
  error_char_last :: nat
  error_colon_multiple :: nat
  colon_count :: nat

definition AuditHeader_step :: "nat \<Rightarrow> nat \<times> char \<Rightarrow> header_counters \<Rightarrow> header_counters" where
  "AuditHeader_step len p c =
     (case p of (i, letter) \<Rightarrow>
        if letter = CHR '':'' then
          (let c1 = (if colon_count c \<ge> 1
                     then c\<lparr>error_colon_multiple := error_colon_multiple c + 1\<rparr> else c)
           in c1\<lparr>colon_count := colon_count c1 + 1\<rparr>)
        else if letter \<in> set ascii_lowercase then
          c\<lparr>error_char_lower := error_char_lower c + 1\<rparr>
        else if letter \<notin> set ascii_uppercase_digits then
          c\<lparr>error_char_illegal := error_char_illegal c + 1\<rparr>
        else if int i = int len - 1 \<and> letter = CHR '':'' then
          c\<lparr>error_char_last := error_char_last c + 1\<rparr>
        else c)"

definition AuditHeader_count :: "string \<Rightarrow> header_counters" where
  "AuditHeader_count data =
     fold (AuditHeader_step (length data)) (enumerate 0 data)
       \<lparr>error_char_lower = 0, error_char_illegal = 0, error_char_last = 0,
        error_colon_multiple = 0, colon_count = 0\<rparr>"

definition AuditHeader_audit :: "string option \<Rightarrow> AbstractAudit \<Rightarrow> AbstractAudit" where
  "AuditHeader_audit data self =
     (let error_missing = (if \<not> str_truthy data then 1 else 0 :: nat);
          c = (case data of
                 None \<Rightarrow> AuditHeader_count []
               | Some s \<Rightarrow> AuditHeader_count s);
          es = (if error_missing \<noteq> 0 then [''illegal missing header''] else [])
             @ (if error_char_lower c \<noteq> 0
                then [str_nat (error_char_lower c) @ '' illegal lower key characters''] else [])
             @ (if error_char_illegal c \<noteq> 0
                then [str_nat (error_char_illegal c) @ '' illegal characters''] else [])
             @ (if error_char_last c \<noteq> 0
                then [str_nat (error_char_last c) @ '' illegal final characters (:)''] else [])
             @ (if error_colon_multiple c \<noteq> 0
                then [str_nat (error_colon_multiple c) @ '' illegal multiple colons''] else [])
      in self\<lparr>valid := (es = []), errors := ErrorList es\<rparr>)"

subsection \<open>\<^verbatim>\<open>AuditUrl.audit\<close>\<close>

text \<open>
  The slices are Python's: \<^verbatim>\<open>address[:7]\<close> is \<open>take 7\<close>, \<^verbatim>\<open>address[8:]\<close> is
  \<open>drop 8\<close>. After \<^verbatim>\<open>address = address.split("/")\<close> the variable is a list of strings,
  and \<^verbatim>\<open>"?" in address\<close> asks whether one of its elements is the string \<^verbatim>\<open>"?"\<close>.
\<close>

definition AuditUrl_audit :: "string option \<Rightarrow> AbstractAudit \<Rightarrow> AbstractAudit" where
  "AuditUrl_audit data self =
     (if \<not> str_truthy data then self\<lparr>valid := False, errors := ErrorList [''missing url'']\<rparr>
      else
        (let address0 = (case data of None \<Rightarrow> [] | Some s \<Rightarrow> s);
             stripped =
               (if length address0 \<ge> 7 \<and> take 7 address0 = ''http://''
                then Some (drop 8 address0)
                else if length address0 \<ge> 8 \<and> take 8 address0 = ''https://''
                then Some (drop 9 address0)
                else None)
         in case stripped of
              None \<Rightarrow> self\<lparr>valid := False, errors := ErrorList [''missing http(s)://'']\<rparr>
            | Some address1 \<Rightarrow>
                (let address = str_split CHR ''/'' address1
                 in if length address \<le> 1
                    then self\<lparr>valid := False, errors := ErrorList [''address too general'']\<rparr>
                    else
                      (let address_host = str_split CHR ''.'' (address ! 0)
                       in if length address_host \<le> 1
                          then self\<lparr>valid := False, errors := ErrorList [''incorret hostname'']\<rparr>
                          else if last address_host = ''arpa''
                          then self\<lparr>valid := False,
                                    errors := ErrorList [''arpa domain is not allowed'']\<rparr>
                          else if length (last address_host) > 3 \<or> length (last address_host) \<le> 1
                          then self\<lparr>valid := False,
                                    errors := ErrorList [''impossible address domain'']\<rparr>
                          else if list_ex (\<lambda>address_part. length address_part = 0) address
                          then self\<lparr>valid := False,
                                    errors := ErrorList [''missing section in domain'']\<rparr>
                          else if ''?'' \<in> set address
                          then self\<lparr>valid := False,
                                    errors := ErrorList [''query'' @ [CHR 0x27] @ ''s not allowed in address'']\<rparr>
                          else if ''#'' \<in> set address
                          then self\<lparr>valid := False,
                                    errors := ErrorList [''fragment'' @ [CHR 0x27] @ ''s not allowed in address'']\<rparr>
                          else self\<lparr>valid := True, errors := ErrorList []\<rparr>))))"

subsection \<open>\<^verbatim>\<open>AuditSpectrumIntensity.audit\<close>\<close>

text \<open>
  The intensities are Python floats (\<^verbatim>\<open>float(x)\<close> of a text field in
  \<^verbatim>\<open>abstract.py\<close>, or a number read from JSON), which include the two infinities and
  NaN. The code only compares them with each other and with 0 and 100, so a finite
  float is the real number it denotes; \<^verbatim>\<open><\<close> and \<^verbatim>\<open>>\<close> are false and \<^verbatim>\<open>!=\<close> is true
  whenever an operand is NaN. The text that an f-string prints for a float is the
  parameter \<open>fmt\<close>.
\<close>

datatype pyfloat = Num real | PosInf | NegInf | NaN

fun float_lt :: "pyfloat \<Rightarrow> pyfloat \<Rightarrow> bool" where
  "float_lt NaN y = False"
| "float_lt x NaN = False"
| "float_lt (Num a) (Num b) = (a < b)"
| "float_lt (Num a) PosInf = True"
| "float_lt (Num a) NegInf = False"
| "float_lt PosInf y = False"
| "float_lt NegInf NegInf = False"
| "float_lt NegInf y = True"

definition float_gt :: "pyfloat \<Rightarrow> pyfloat \<Rightarrow> bool" where
  "float_gt x y = float_lt y x"

definition float_ne :: "pyfloat \<Rightarrow> pyfloat \<Rightarrow> bool" where
  "float_ne x y = (x = NaN \<or> y = NaN \<or> x \<noteq> y)"

record intensity_loop =
  valid_value_min :: bool
  valid_value_max :: bool
  max_intensity_value :: pyfloat
  min_intensity_value :: pyfloat

definition AuditSpectrumIntensity_step :: "pyfloat \<Rightarrow> intensity_loop \<Rightarrow> intensity_loop" where
  "AuditSpectrumIntensity_step point st =
     (let st1 = (if float_lt point (Num 0) then st\<lparr>valid_value_min := False\<rparr> else st);
          st2 = (if float_gt point (Num 100) then st1\<lparr>valid_value_max := False\<rparr> else st1)
      in if float_gt point (max_intensity_value st2) then st2\<lparr>max_intensity_value := point\<rparr>
         else if float_lt point (min_intensity_value st2) then st2\<lparr>min_intensity_value := point\<rparr>
         else st2)"

definition AuditSpectrumIntensity_audit ::
    "(pyfloat \<Rightarrow> string) \<Rightarrow> pyfloat list option \<Rightarrow> AbstractAudit \<Rightarrow> AbstractAudit" where
  "AuditSpectrumIntensity_audit fmt data self =
     (case data of
        None \<Rightarrow> self\<lparr>valid := False, errors := ErrorList [''missing intensity'']\<rparr>
      | Some [] \<Rightarrow> self\<lparr>valid := False, errors := ErrorList [''missing intensity'']\<rparr>
      | Some (d0 # ds) \<Rightarrow>
          (let st = fold AuditSpectrumIntensity_step (d0 # ds)
                      \<lparr>valid_value_min = True, valid_value_max = True,
                       max_intensity_value = d0, min_intensity_value = d0\<rparr>;
               es = (if length (d0 # ds) \<le> 2 then [''intensity contains <= 2 data points''] else [])
                  @ (if \<not> valid_value_min st then [''contains entree <0''] else [])
                  @ (if \<not> valid_value_max st then [''contains entree >100''] else [])
                  @ (if float_ne (max_intensity_value st) (Num 100)
                     then [''maximum intensity value is '' @ fmt (max_intensity_value st)
                           @ '', should be 100''] else [])
                  @ (if float_ne (min_intensity_value st) (Num 0)
                     then [''minimum intensity value is '' @ fmt (min_intensity_value st)
                           @ '', should be 0''] else [])
           in self\<lparr>valid := (\<not> length (d0 # ds) \<le> 2 \<and> valid_value_min st \<and> valid_value_max st
                              \<and> \<not> float_ne (max_intensity_value st) (Num 100)
                              \<and> \<not> float_ne (min_intensity_value st) (Num 0)),
                    errors := ErrorList es\<rparr>))"

text \<open>A float lies in the closed interval from 0 to 100.\<close>

definition in_range :: "pyfloat \<Rightarrow> bool" where
  "in_range x = (case x of Num r \<Rightarrow> 0 \<le> r \<and> r \<le> 100 | _ \<Rightarrow> False)"

subsection \<open>\<^verbatim>\<open>AuditReference.audit\<close>\<close>

text \<open>\<^verbatim>\<open>class AbstractReference\<close> of \<^verbatim>\<open>tools/abstract.py\<close> (fields with the prefix
  \<open>ref_\<close>) and its \<^verbatim>\<open>__bool__\<close>.\<close>

record Reference =
  ref_url :: "string option"
  ref_title :: "string option"
  ref_authors :: "string list"
  ref_year :: "string option"
  ref_journal :: "string option"
  ref_volume :: "string option"
  ref_issue :: "string option"
  ref_pages :: "string option"
  ref_doi :: "string option"
  ref_url_pubmed :: "string option"
  ref_url_doi :: "string option"

definition Reference_bool :: "Reference \<Rightarrow> bool" where
  "Reference_bool self =
     (if str_truthy (ref_url self) then True
      else if str_truthy (ref_title self) then True
      else if ref_authors self \<noteq> [] then True
      else if str_truthy (ref_year self) then True
      else if str_truthy (ref_journal self) then True
      else if str_truthy (ref_volume self) then True
      else if str_truthy (ref_issue self) then True
      else if str_truthy (ref_pages self) then True
      else if str_truthy (ref_doi self) then True
      else if str_truthy (ref_url_pubmed self) then True
      else if str_truthy (ref_url_doi self) then True
      else False)"

text \<open>\<^verbatim>\<open>AuditUrlPubmed.audit\<close>, \<^verbatim>\<open>AuditUrlDOI.audit\<close> and \<^verbatim>\<open>AuditUrlDOI.audit_doi\<close>:
  a required prefix and the check of \<^verbatim>\<open>AuditUrl\<close> on a fresh validator.
  \<^verbatim>\<open>self.errors.append\<close> needs a list.\<close>

definition AuditUrlPrefix_audit ::
    "nat \<Rightarrow> string \<Rightarrow> string \<Rightarrow> string \<Rightarrow> string option \<Rightarrow> AbstractAudit \<Rightarrow> AbstractAudit" where
  "AuditUrlPrefix_audit n required missing incorrect data self =
     (if \<not> str_truthy data then self\<lparr>valid := False, errors := ErrorList [missing]\<rparr>
      else
        (let url = (case data of None \<Rightarrow> [] | Some s \<Rightarrow> s);
             bad = (take n url \<noteq> required);
             audit = AuditUrl_audit data AbstractAudit_init
         in self\<lparr>valid := (\<not> bad \<and> valid audit),
                  errors := ErrorList ((if bad then [incorrect] else [])
                              @ (if \<not> valid audit then error_items (errors audit) else []))\<rparr>))"

definition AuditUrlPubmed_audit :: "string option \<Rightarrow> AbstractAudit \<Rightarrow> AbstractAudit" where
  "AuditUrlPubmed_audit =
     AuditUrlPrefix_audit 36 ''https://www.ncbi.nlm.nih.gov/pubmed/''
       ''missing pubmed url'' ''incorrect pubmed url''"

definition AuditUrlDOI_audit :: "string option \<Rightarrow> AbstractAudit \<Rightarrow> AbstractAudit" where
  "AuditUrlDOI_audit =
     AuditUrlPrefix_audit 16 ''https://doi.org/'' ''missing doi url'' ''incorrect doi url''"

definition errors_append :: "string \<Rightarrow> AbstractAudit \<Rightarrow> AbstractAudit \<times> error option" where
  "errors_append msg self =
     (case errors self of
        ErrorList es \<Rightarrow> (self\<lparr>errors := ErrorList (es @ [msg])\<rparr>, None)
      | ErrorStr t \<Rightarrow> (self, Some AttributeError))"

definition AuditUrlDOI_audit_doi ::
    "string option \<Rightarrow> string option \<Rightarrow> AbstractAudit \<Rightarrow> AbstractAudit \<times> error option" where
  "AuditUrlDOI_audit_doi data doi self =
     (if \<not> str_truthy data \<and> \<not> str_truthy doi then (self, None)
      else if \<not> str_truthy data
      then errors_append ''known doi, unknown url'' (self\<lparr>valid := False\<rparr>)
      else if \<not> str_truthy doi
      then errors_append ''known url, unknown doi'' (self\<lparr>valid := False\<rparr>)
      else if map_option (drop 16) data \<noteq> doi
      then errors_append ''doi unequal between doi and url'' (self\<lparr>valid := False\<rparr>)
      else (self, None))"

text \<open>
  The state of an \<^verbatim>\<open>AuditReference\<close> (sub-validators with the prefix \<open>ar_\<close>) after
  \<^verbatim>\<open>AuditReference()\<close>: the verdict of \<^verbatim>\<open>AbstractAudit.__init__\<close> and fresh
  sub-validators.
\<close>

record AuditReference = AbstractAudit +
  is_url :: bool
  ar_url :: AbstractAudit
  ar_title :: AbstractAudit
  ar_authors :: "AbstractAudit AbstractAuditList"
  ar_year :: AbstractAudit
  ar_journal :: AbstractAudit
  ar_volume :: AbstractAudit
  ar_issue :: AbstractAudit
  ar_pages :: AbstractAudit
  ar_doi :: AbstractAudit
  ar_url_pubmed :: AbstractAudit
  ar_url_doi :: AbstractAudit

definition AuditReference_init :: AuditReference where
  "AuditReference_init =
     \<lparr>valid = False, errors = ErrorList [''unchecked''], is_url = False,
      ar_url = AbstractAudit_init, ar_title = AbstractAudit_init,
      ar_authors = \<lparr>valid = False, errors = ErrorList [''unchecked''], audits = []\<rparr>,
      ar_year = AbstractAudit_init, ar_journal = AbstractAudit_init,
      ar_volume = AbstractAudit_init, ar_issue = AbstractAudit_init,
      ar_pages = AbstractAudit_init, ar_doi = AbstractAudit_init,
      ar_url_pubmed = AbstractAudit_init, ar_url_doi = AbstractAudit_init\<rparr>"

text \<open>
  The validators of the bibliographic fields other than the two urls (title, authors,
  year, journal, volume, issue, pages, doi) are parameters of the model: each takes the
  field and the validator and returns the validator, and the exception if it raises one
  (\<^verbatim>\<open>AuditVolume.audit\<close> compares a string with 0 after a failed conversion).
\<close>

record bib_audits =
  title_audit :: "string option \<Rightarrow> AbstractAudit \<Rightarrow> AbstractAudit \<times> error option"
  authors_audit :: "string list \<Rightarrow> AbstractAudit AbstractAuditList
                      \<Rightarrow> AbstractAudit AbstractAuditList \<times> error option"
  year_audit :: "string option \<Rightarrow> AbstractAudit \<Rightarrow> AbstractAudit \<times> error option"
  journal_audit :: "string option \<Rightarrow> AbstractAudit \<Rightarrow> AbstractAudit \<times> error option"
  volume_audit :: "string option \<Rightarrow> AbstractAudit \<Rightarrow> AbstractAudit \<times> error option"
  issue_audit :: "string option \<Rightarrow> AbstractAudit \<Rightarrow> AbstractAudit \<times> error option"
  pages_audit :: "string option \<Rightarrow> AbstractAudit \<Rightarrow> AbstractAudit \<times> error option"
  doi_audit :: "string option \<Rightarrow> AbstractAudit \<Rightarrow> AbstractAudit \<times> error option"

text \<open>The calls of lines 1038-1048, in their order.\<close>

definition AuditReference_steps ::
    "bib_audits \<Rightarrow> Reference \<Rightarrow> (AuditReference \<Rightarrow> AuditReference \<times> error option) list" where
  "AuditReference_steps subs data =
     [\<lambda>s. case title_audit subs (ref_title data) (ar_title s) of (a, e) \<Rightarrow> (s\<lparr>ar_title := a\<rparr>, e),
      \<lambda>s. case authors_audit subs (ref_authors data) (ar_authors s) of
             (a, e) \<Rightarrow> (s\<lparr>ar_authors := a\<rparr>, e),
      \<lambda>s. case year_audit subs (ref_year data) (ar_year s) of (a, e) \<Rightarrow> (s\<lparr>ar_year := a\<rparr>, e),
      \<lambda>s. case journal_audit subs (ref_journal data) (ar_journal s) of
             (a, e) \<Rightarrow> (s\<lparr>ar_journal := a\<rparr>, e),
      \<lambda>s. case volume_audit subs (ref_volume data) (ar_volume s) of
             (a, e) \<Rightarrow> (s\<lparr>ar_volume := a\<rparr>, e),
      \<lambda>s. case issue_audit subs (ref_issue data) (ar_issue s) of (a, e) \<Rightarrow> (s\<lparr>ar_issue := a\<rparr>, e),
      \<lambda>s. case pages_audit subs (ref_pages data) (ar_pages s) of (a, e) \<Rightarrow> (s\<lparr>ar_pages := a\<rparr>, e),
      \<lambda>s. case doi_audit subs (ref_doi data) (ar_doi s) of (a, e) \<Rightarrow> (s\<lparr>ar_doi := a\<rparr>, e),
      \<lambda>s. (s\<lparr>ar_url_pubmed := AuditUrlPubmed_audit (ref_url_pubmed data) (ar_url_pubmed s)\<rparr>, None),
      \<lambda>s. (s\<lparr>ar_url_doi := AuditUrlDOI_audit (ref_url_doi data) (ar_url_doi s)\<rparr>, None),
      \<lambda>s. case AuditUrlDOI_audit_doi (ref_url_doi data) (ref_doi data) (ar_url_doi s) of
             (a, e) \<Rightarrow> (s\<lparr>ar_url_doi := a\<rparr>, e)]"

text \<open>The aggregation of lines 1050-1103: a sub-validator that is not valid makes the
  reference invalid and contributes its errors under its key.\<close>

definition collect :: "string \<Rightarrow> bool \<Rightarrow> pyerrors \<Rightarrow> bool \<times> string list \<Rightarrow> bool \<times> string list" where
  "collect key v es acc =
     (if \<not> v then (False, snd acc @ map (\<lambda>e. key @ '':'' @ e) (error_items es)) else acc)"

definition AuditReference_verdict :: "AuditReference \<Rightarrow> AuditReference" where
  "AuditReference_verdict self =
     (let acc =
        (if is_url self
         then collect ''url'' (valid (ar_url self)) (errors (ar_url self)) (True, [])
         else
           collect ''url_pubmed'' (valid (ar_url_pubmed self)) (errors (ar_url_pubmed self))
            (collect ''url_doi'' (valid (ar_url_doi self)) (errors (ar_url_doi self))
             (collect ''doi'' (valid (ar_doi self)) (errors (ar_doi self))
              (collect ''pages'' (valid (ar_pages self)) (errors (ar_pages self))
               (collect ''issue'' (valid (ar_issue self)) (errors (ar_issue self))
                (collect ''volume'' (valid (ar_volume self)) (errors (ar_volume self))
                 (collect ''journal'' (valid (ar_journal self)) (errors (ar_journal self))
                  (collect ''year'' (valid (ar_year self)) (errors (ar_year self))
                   (fold (\<lambda>(i, author). collect (''author['' @ str_nat i @ '']'')
                                           (valid author) (errors author))
                      (enumerate 0 (audits (ar_authors self)))
                      (collect ''title'' (valid (ar_title self)) (errors (ar_title self))
                         (True, [])))))))))))
      in if \<not> fst acc then self\<lparr>valid := False, errors := ErrorList (snd acc)\<rparr>
         else self\<lparr>valid := True, errors := ErrorList []\<rparr>)"

text \<open>
  \<^verbatim>\<open>AuditReference.audit(data)\<close>; \<^verbatim>\<open>data\<close> is a reference or \<^verbatim>\<open>None\<close>. The branch
  of a reference with a url ends with \<^verbatim>\<open>return\<close> right after
  \<^verbatim>\<open>self.url.audit(data.url)\<close> (lines 1031-1034).
\<close>

definition AuditReference_audit ::
    "bib_audits \<Rightarrow> Reference option \<Rightarrow> AuditReference \<Rightarrow> AuditReference \<times> error option" where
  "AuditReference_audit subs data self =
     (case data of
        None \<Rightarrow> (self\<lparr>valid := False, errors := ErrorStr ''missing reference''\<rparr>, None)
      | Some d \<Rightarrow>
          if \<not> Reference_bool d
          then (self\<lparr>valid := False, errors := ErrorStr ''missing reference''\<rparr>, None)
          else if str_truthy (ref_url d)
          then (self\<lparr>is_url := True, ar_url := AuditUrl_audit (ref_url d) (ar_url self)\<rparr>, None)
          else
            (case run_steps (AuditReference_steps subs d) (self\<lparr>is_url := False\<rparr>) of
               (s, Some e) \<Rightarrow> (s, Some e)
             | (s, None) \<Rightarrow> (AuditReference_verdict s, None)))"

subsection \<open>\<^verbatim>\<open>Auditor.reset\<close>\<close>

text \<open>The sub-validators of \<^verbatim>\<open>class Auditor\<close> (prefix \<open>aud_\<close>) and the sixteen calls of
  \<^verbatim>\<open>Auditor.reset\<close> in their order. The scalar validators inherit
  \<^verbatim>\<open>AbstractAudit.reset\<close>; \<^verbatim>\<open>AuditNames\<close> and \<^verbatim>\<open>AuditReferences\<close> inherit
  \<^verbatim>\<open>AbstractAuditList.reset\<close>.\<close>

record Auditor =
  aud_header :: AbstractAudit
  aud_enable :: AbstractAudit
  aud_source :: AbstractAudit
  aud_categories :: AbstractAudit
  aud_names :: "AbstractAudit AbstractAuditList"
  aud_extinction_coefficient :: AbstractAudit
  aud_quantum_yield :: AbstractAudit
  aud_cross_section :: AbstractAudit
  aud_brightness :: AbstractAudit
  aud_brightness_bin :: AbstractAudit
  aud_url :: AbstractAudit
  aud_references :: "AuditReference AbstractAuditList"
  aud_absorption :: AuditSpectrum
  aud_excitation :: AuditSpectrum
  aud_emission :: AuditSpectrum
  aud_two_photon :: AuditSpectrum

definition Auditor_reset :: "string list \<Rightarrow> Auditor \<Rightarrow> Auditor \<times> error option" where
  "Auditor_reset scope =
     run_steps
       [\<lambda>s. case AbstractAudit_reset scope (aud_header s) of (a, e) \<Rightarrow> (s\<lparr>aud_header := a\<rparr>, e),
        \<lambda>s. case AbstractAudit_reset scope (aud_enable s) of (a, e) \<Rightarrow> (s\<lparr>aud_enable := a\<rparr>, e),
        \<lambda>s. case AbstractAudit_reset scope (aud_source s) of (a, e) \<Rightarrow> (s\<lparr>aud_source := a\<rparr>, e),
        \<lambda>s. case AbstractAudit_reset scope (aud_categories s) of
               (a, e) \<Rightarrow> (s\<lparr>aud_categories := a\<rparr>, e),
        \<lambda>s. (s\<lparr>aud_names := AbstractAuditList_reset (aud_names s)\<rparr>, None),
        \<lambda>s. case AbstractAudit_reset scope (aud_extinction_coefficient s) of
               (a, e) \<Rightarrow> (s\<lparr>aud_extinction_coefficient := a\<rparr>, e),
        \<lambda>s. case AbstractAudit_reset scope (aud_quantum_yield s) of
               (a, e) \<Rightarrow> (s\<lparr>aud_quantum_yield := a\<rparr>, e),
        \<lambda>s. case AbstractAudit_reset scope (aud_cross_section s) of
               (a, e) \<Rightarrow> (s\<lparr>aud_cross_section := a\<rparr>, e),
        \<lambda>s. case AbstractAudit_reset scope (aud_brightness s) of
               (a, e) \<Rightarrow> (s\<lparr>aud_brightness := a\<rparr>, e),
        \<lambda>s. case AbstractAudit_reset scope (aud_brightness_bin s) of
               (a, e) \<Rightarrow> (s\<lparr>aud_brightness_bin := a\<rparr>, e),
        \<lambda>s. case AbstractAudit_reset scope (aud_url s) of (a, e) \<Rightarrow> (s\<lparr>aud_url := a\<rparr>, e),
        \<lambda>s. (s\<lparr>aud_references := AbstractAuditList_reset (aud_references s)\<rparr>, None),
        \<lambda>s. case AuditSpectrum_reset scope (aud_absorption s) of
               (a, e) \<Rightarrow> (s\<lparr>aud_absorption := a\<rparr>, e),
        \<lambda>s. case AuditSpectrum_reset scope (aud_excitation s) of
               (a, e) \<Rightarrow> (s\<lparr>aud_excitation := a\<rparr>, e),
        \<lambda>s. case AuditSpectrum_reset scope (aud_emission s) of
               (a, e) \<Rightarrow> (s\<lparr>aud_emission := a\<rparr>, e),
        \<lambda>s. case AuditSpectrum_reset scope (aud_two_photon s) of
               (a, e) \<Rightarrow> (s\<lparr>aud_two_photon := a\<rparr>, e)]"

section \<open>Properties of the map\<close>

subsection \<open>\<^verbatim>\<open>Map.append\<close> on an empty collection\<close>

text \<open>
  C4 (as claimed: \<^verbatim>\<open>append\<close> of an empty or null collection changes no field of the
  map). The claim fails: the method starts with "Wipe previous result" and only then
  looks at the collection. On a map whose last run left an unresolved identifier the
  list is emptied, and on a fresh map the stored source changes from \<^verbatim>\<open>Source.none\<close>
  to \<^verbatim>\<open>None\<close>.
\<close>

theorem Map_append_empty_wipes:
  "\<forall>lower.
     map_unresolved (Map_init\<lparr>map_unresolved := [Identifier_init bd (Some ''1'')]\<rparr>) \<noteq> []
     \<and> map_unresolved
          (fst (Map_append lower (Some [])
                 (Map_init\<lparr>map_unresolved := [Identifier_init bd (Some ''1'')]\<rparr>))) = []
     \<and> fst (Map_append lower None Map_init) \<noteq> Map_init"
  by (simp add: Map_append_def Map_init_def)

text \<open>
  C4 (amended): \<^verbatim>\<open>append\<close> of an empty or null collection raises nothing, leaves the
  headers of the map as they are, and resets the results of the last run: the stored
  source becomes \<^verbatim>\<open>None\<close>, the unresolved and the dangled list become empty.
\<close>

theorem Map_append_empty:
  "data = None \<or> data = Some [] \<Longrightarrow>
   Map_append lower data self =
     (self\<lparr>map_source := None, map_unresolved := [], map_dangled := []\<rparr>, None)"
  by (auto simp: Map_append_def)

theorem Map_append_empty_witness:
  "\<forall>lower.
     Map_append lower (Some [])
       (Map_init\<lparr>map_map := [(''EGFP'', Header_init ''EGFP'')],
                 map_dangled := [Identifier_init bd (Some ''1'')]\<rparr>) =
     (\<lparr>map_map = [(''EGFP'', Header_init ''EGFP'')], map_source = None,
       map_unresolved = [], map_dangled = []\<rparr>, None)"
proof
  fix lower
  show "Map_append lower (Some [])
       (Map_init\<lparr>map_map := [(''EGFP'', Header_init ''EGFP'')],
                 map_dangled := [Identifier_init bd (Some ''1'')]\<rparr>) =
     (\<lparr>map_map = [(''EGFP'', Header_init ''EGFP'')], map_source = None,
       map_unresolved = [], map_dangled = []\<rparr>, None)"
    using Map_append_empty[where data = "Some []" and lower = lower and self =
        "Map_init\<lparr>map_map := [(''EGFP'', Header_init ''EGFP'')],
                  map_dangled := [Identifier_init bd (Some ''1'')]\<rparr>"]
    by (simp add: Map_init_def)
qed

subsection \<open>\<^verbatim>\<open>Map.delete\<close> twice\<close>

text \<open>The loop of \<^verbatim>\<open>delete\<close> never reads out of range; it removes every element equal
  to the identifier and reports whether there was one.\<close>

lemma delete_loop_filter:
  "j \<le> length ids \<Longrightarrow>
   delete_loop j x (ids, b) =
     ((filter (\<lambda>y. \<not> Identifier_eq y x) (take j ids) @ drop j ids,
       b \<or> (\<exists>y \<in> set (take j ids). Identifier_eq y x)), None)"
proof (induction j arbitrary: ids b)
  case 0
  then show ?case by simp
next
  case (Suc j)
  then have j: "j < length ids" by simp
  have tk: "take (Suc j) ids = take j ids @ [ids ! j]"
    using j by (simp add: take_Suc_conv_app_nth)
  show ?case
  proof (cases "Identifier_eq (ids ! j) x")
    case True
    have "j \<le> length (take j ids @ drop (Suc j) ids)" using j by simp
    from Suc.IH[OF this, of True] True j tk show ?thesis
      by (simp add: min_def)
  next
    case False
    from Suc.IH[of ids b] False j tk show ?thesis
      by (auto simp: Cons_nth_drop_Suc)
  qed
qed

lemma delete_loop_full:
  "delete_loop (length ids) x (ids, False) =
     ((filter (\<lambda>y. \<not> Identifier_eq y x) ids, \<exists>y \<in> set ids. Identifier_eq y x), None)"
  using delete_loop_filter[of "length ids" ids x False] by simp

lemma filter_no_match:
  "\<not> (\<exists>y \<in> set ids. Identifier_eq y x) \<Longrightarrow> filter (\<lambda>y. \<not> Identifier_eq y x) ids = ids"
  by (induction ids) auto

lemma clear_source_identifiers [simp]:
  "hd_identifiers (clear_source i h) = hd_identifiers h"
  by (simp add: clear_source_def split: option.splits)

lemma Map_delete_absent:
  "map_of (map_map self) header = None \<Longrightarrow>
   Map_delete header identifier self = (self, Some KeyError)"
  by (simp add: Map_delete_def)

lemma Map_delete_no_match:
  "map_of (map_map self) header = Some h \<Longrightarrow>
   \<not> (\<exists>y \<in> set (hd_identifiers h). Identifier_eq y identifier) \<Longrightarrow>
   Map_delete header identifier self = (self, None)"
  by (auto simp: Map_delete_def delete_loop_full filter_no_match AList.update_triv)

lemma Map_delete_match:
  "map_of (map_map self) header = Some h \<Longrightarrow>
   \<exists>y \<in> set (hd_identifiers h). Identifier_eq y identifier \<Longrightarrow>
   Map_delete header identifier self =
     (let ids = filter (\<lambda>y. \<not> Identifier_eq y identifier) (hd_identifiers h)
      in if ids = [] then (self\<lparr>map_map := AList.delete header (map_map self)\<rparr>, None)
         else (self\<lparr>map_map := AList.update header
                  (clear_source identifier (h\<lparr>hd_identifiers := ids\<rparr>)) (map_map self)\<rparr>, None))"
  by (auto simp: Map_delete_def delete_loop_full Let_def)

text \<open>
  C5 (as claimed: for every map, header and identifier the second of two equal calls of
  \<^verbatim>\<open>delete\<close> does not raise). The claim fails when the first call removes the last
  identifier of the header: the header leaves the map, and \<^verbatim>\<open>self.map[header]\<close> in
  the second call raises \<^verbatim>\<open>KeyError\<close>.
\<close>

theorem Map_delete_twice_raises:
  "snd (Map_delete ''EGFP'' (Identifier_init bd (Some ''1''))
      (fst (Map_delete ''EGFP'' (Identifier_init bd (Some ''1''))
        (Map_init\<lparr>map_map :=
           [(''EGFP'', (Header_init ''EGFP'')
               \<lparr>hd_identifiers := [Identifier_init bd (Some ''1'')]\<rparr>)]\<rparr>))))
   = Some KeyError"
  by (simp add: Map_delete_def Map_init_def Header_init_def Identifier_init_def
      Identifier_eq_def)

text \<open>
  C5 (amended): for every map, header name and identifier, the second of two equal
  calls of \<^verbatim>\<open>delete\<close> leaves the map as the first call left it, and it returns without
  raising exactly when the header is still in the map after the first call; when the
  header is not (it never was, or the first call removed its last identifier), the
  second call raises \<^verbatim>\<open>KeyError\<close>.
\<close>

theorem Map_delete_twice:
  "fst (Map_delete header identifier (fst (Map_delete header identifier self)))
     = fst (Map_delete header identifier self) \<and>
   (snd (Map_delete header identifier (fst (Map_delete header identifier self))) =
      (if map_of (map_map (fst (Map_delete header identifier self))) header = None
       then Some KeyError else None))"
proof (cases "map_of (map_map self) header")
  case None
  then show ?thesis by (simp add: Map_delete_absent)
next
  case (Some h)
  show ?thesis
  proof (cases "\<exists>y \<in> set (hd_identifiers h). Identifier_eq y identifier")
    case False
    then show ?thesis using Some by (simp add: Map_delete_no_match)
  next
    case True
    define ids where "ids = filter (\<lambda>y. \<not> Identifier_eq y identifier) (hd_identifiers h)"
    show ?thesis
    proof (cases "ids = []")
      case True
      with \<open>\<exists>y \<in> set (hd_identifiers h). Identifier_eq y identifier\<close> Some
      have "Map_delete header identifier self =
              (self\<lparr>map_map := AList.delete header (map_map self)\<rparr>, None)"
        by (simp add: Map_delete_match ids_def)
      then show ?thesis
        by (simp add: Map_delete_absent AList.delete_conv')
    next
      case False
      define h2 where "h2 = clear_source identifier (h\<lparr>hd_identifiers := ids\<rparr>)"
      define self1 where "self1 = self\<lparr>map_map := AList.update header h2 (map_map self)\<rparr>"
      from False \<open>\<exists>y \<in> set (hd_identifiers h). Identifier_eq y identifier\<close> Some
      have first: "Map_delete header identifier self = (self1, None)"
        by (simp add: Map_delete_match ids_def h2_def self1_def)
      have look: "map_of (map_map self1) header = Some h2"
        by (simp add: self1_def AList.update_conv')
      have "\<not> (\<exists>y \<in> set (hd_identifiers h2). Identifier_eq y identifier)"
        by (simp add: h2_def ids_def)
      with look have "Map_delete header identifier self1 = (self1, None)"
        by (rule Map_delete_no_match)
      with first look show ?thesis by simp
    qed
  qed
qed

theorem Map_delete_twice_witness:
  "fst (Map_delete ''EGFP'' (Identifier_init bd (Some ''1''))
      (fst (Map_delete ''EGFP'' (Identifier_init bd (Some ''1''))
        (Map_init\<lparr>map_map :=
           [(''EGFP'', (Header_init ''EGFP'')
               \<lparr>hd_identifiers := [Identifier_init bd (Some ''1''),
                                   Identifier_init fpbase (Some ''2'')]\<rparr>)]\<rparr>))))
   = Map_init\<lparr>map_map :=
           [(''EGFP'', (Header_init ''EGFP'')
               \<lparr>hd_identifiers := [Identifier_init fpbase (Some ''2'')]\<rparr>)]\<rparr>
   \<and> snd (Map_delete ''EGFP'' (Identifier_init bd (Some ''1''))
      (fst (Map_delete ''EGFP'' (Identifier_init bd (Some ''1''))
        (Map_init\<lparr>map_map :=
           [(''EGFP'', (Header_init ''EGFP'')
               \<lparr>hd_identifiers := [Identifier_init bd (Some ''1''),
                                   Identifier_init fpbase (Some ''2'')]\<rparr>)]\<rparr>))))
   = None"
  using Map_delete_twice[of "''EGFP''" "Identifier_init bd (Some ''1'')"
      "Map_init\<lparr>map_map :=
           [(''EGFP'', (Header_init ''EGFP'')
               \<lparr>hd_identifiers := [Identifier_init bd (Some ''1''),
                                   Identifier_init fpbase (Some ''2'')]\<rparr>)]\<rparr>"]
  by (simp add: Map_delete_def Map_init_def Header_init_def Identifier_init_def
      Identifier_eq_def clear_source_def)

subsection \<open>\<^verbatim>\<open>Map.append\<close> on a batch\<close>

text \<open>\<^verbatim>\<open>Identifier.__eq__\<close> is an equivalence, and the operations on sets of identifiers
  respect it.\<close>

lemma Identifier_eq_iff:
  "Identifier_eq x y \<longleftrightarrow> id_source x = id_source y \<and> id_identifier x = id_identifier y"
  by (auto simp: Identifier_eq_def)


lemma Identifier_eq_sym: "Identifier_eq x y = Identifier_eq y x"
  by (auto simp: Identifier_eq_iff)

lemma Identifier_eq_trans: "Identifier_eq x y \<Longrightarrow> Identifier_eq y z \<Longrightarrow> Identifier_eq x z"
  by (simp add: Identifier_eq_iff)

lemma set_contains_iff: "set_contains S x \<longleftrightarrow> (\<exists>y \<in> set S. Identifier_eq x y)"
  by (simp add: set_contains_def list_ex_iff)


lemma set_contains_set_add: "set_contains (set_add y S) x \<longleftrightarrow> set_contains S x \<or> Identifier_eq x y"
  by (auto simp: set_add_def set_contains_iff Identifier_eq_iff)

lemma set_contains_fold_set_add:
  "set_contains (fold set_add xs S) x \<longleftrightarrow> set_contains S x \<or> (\<exists>y \<in> set xs. Identifier_eq x y)"
  by (induction xs arbitrary: S) (auto simp: set_contains_set_add)


lemma inner_fold_filter:
  "fold (\<lambda>identifier S'. if id_source identifier = src then set_add identifier S' else S') ids S
   = fold set_add (filter (\<lambda>i. id_source i = src) ids) S"
  by (induction ids arbitrary: S) auto

lemma map_identifiers_of_fold:
  "fold (\<lambda>(header, h) S.
             fold (\<lambda>identifier S'. if id_source identifier = src then set_add identifier S' else S')
               (hd_identifiers h) S) m S0
   = fold set_add (source_identifiers src m) S0"
  by (induction m arbitrary: S0) (auto simp: source_identifiers_def inner_fold_filter)

lemma map_identifiers_of_eq:
  "map_identifiers_of src m = fold set_add (source_identifiers src m) []"
  by (simp add: map_identifiers_of_def map_identifiers_of_fold)

lemma set_contains_map_identifiers:
  "set_contains (map_identifiers_of src m) x \<longleftrightarrow>
     (\<exists>y \<in> set (source_identifiers src m). Identifier_eq x y)"
  unfolding map_identifiers_of_eq set_contains_fold_set_add
  by (simp add: set_contains_iff)

lemma inner_names_fold:
  "fold (\<lambda>name d'. d'(lower name \<mapsto> header)) names d x = Some k \<Longrightarrow> d x = Some k \<or> k = header"
proof (induction names arbitrary: d)
  case Nil
  then show ?case by simp
next
  case (Cons a names)
  from Cons.prems have "fold (\<lambda>name d'. d'(lower name \<mapsto> header)) names (d(lower a \<mapsto> header)) x = Some k"
    by (simp only: fold_simps)
  from Cons.IH[OF this] show ?case by (auto split: if_splits)
qed

lemma names_fold_range:
  "fold (\<lambda>p d. fold (\<lambda>name d'. d'(lower name \<mapsto> fst p)) (hd_names (snd p)) d) m d0 x = Some k
   \<Longrightarrow> d0 x = Some k \<or> k \<in> fst ` set m"
proof (induction m arbitrary: d0)
  case Nil
  then show ?case by simp
next
  case (Cons p m)
  let ?d1 = "fold (\<lambda>name d'. d'(lower name \<mapsto> fst p)) (hd_names (snd p)) d0"
  from Cons.prems have "fold (\<lambda>p d. fold (\<lambda>name d'. d'(lower name \<mapsto> fst p)) (hd_names (snd p)) d) m ?d1 x = Some k"
    by (simp only: fold_simps)
  from Cons.IH[OF this] have "?d1 x = Some k \<or> k \<in> fst ` set m" .
  then show ?case
  proof
    assume "?d1 x = Some k"
    from inner_names_fold[OF this] show ?thesis by auto
  next
    assume "k \<in> fst ` set m"
    then show ?thesis by simp
  qed
qed

lemma name_to_header_of_alt:
  "name_to_header_of lower m =
     fold (\<lambda>p d. fold (\<lambda>name d'. d'(lower name \<mapsto> fst p)) (hd_names (snd p)) d) m Map.empty"
  by (simp add: name_to_header_of_def case_prod_unfold)

lemma name_to_header_range:
  "name_to_header_of lower m x = Some k \<Longrightarrow> k \<in> fst ` set m"
  using names_fold_range[where m = m and ?d0.0 = Map.empty and x = x and k = k] by (simp add: name_to_header_of_alt)

lemma name_to_header_cong:
  assumes "map (\<lambda>p. (fst p, hd_names (snd p))) m = map (\<lambda>p. (fst p, hd_names (snd p))) m'"
  shows "name_to_header_of lower m = name_to_header_of lower m'"
proof -
  have "\<And>m. name_to_header_of lower m =
      fold (\<lambda>q d. fold (\<lambda>name d'. d'(lower name \<mapsto> fst q)) (snd q) d)
        (map (\<lambda>p. (fst p, hd_names (snd p))) m) Map.empty"
    by (simp add: name_to_header_of_alt fold_map comp_def)
  with assms show ?thesis by simp
qed

lemma find_header_range:
  "find_header lower d names = Some k \<Longrightarrow> \<exists>x. d x = Some k"
  by (induction names) (auto split: option.splits)

lemma add_links_keys [simp]: "map fst (add_links f m) = map fst m"
  by (simp add: add_links_def comp_def)

lemma add_links_Nil [simp]: "add_links (\<lambda>k. []) m = m"
  by (simp add: add_links_def)

lemma add_links_compose: "add_links g (add_links f m) = add_links (\<lambda>k. f k @ g k) m"
  by (simp add: add_links_def comp_def)

lemma add_links_id:
  "k \<notin> fst ` set m \<Longrightarrow> add_links (\<lambda>k'. if k' = k then ys else []) m = m"
  by (induction m) (auto simp: add_links_def)

lemma update_add_links:
  "distinct (map fst m) \<Longrightarrow> map_of m k = Some h \<Longrightarrow>
   AList.update k (h\<lparr>hd_identifiers := hd_identifiers h @ ys\<rparr>) m
     = add_links (\<lambda>k'. if k' = k then ys else []) m"
proof (induction m)
  case Nil
  then show ?case by simp
next
  case (Cons p m)
  show ?case
  proof (cases "fst p = k")
    case True
    with Cons.prems have "k \<notin> fst ` set m" "snd p = h" by auto
    with True add_links_id[of k m ys] show ?thesis
      by (cases p) (simp add: add_links_def)
  next
    case False
    with Cons show ?thesis by (cases p) (auto simp: add_links_def)
  qed
qed

lemma identifier_Inr:
  "has_identifier item \<Longrightarrow>
   \<exists>s. AbstractID_identifier (data_id item) = Inr s \<and> batch_identifier src item = Identifier_init src (Some s)"
  by (auto simp: has_identifier_def AbstractID_identifier_def batch_identifier_def split: option.splits)

lemma resolve_ok:
  assumes "\<forall>item \<in> set items. aid_source (data_id item) = src \<and> has_identifier item"
    and "map_source self = Some src"
    and "distinct (map fst (map_map self))"
    and "\<forall>x k. d x = Some k \<longrightarrow> k \<in> fst ` set (map_map self)"
  shows "resolve lower src d mids items (self, dids) =
     ((self\<lparr>map_map := add_links (\<lambda>k. linked_to lower d mids src k items) (map_map self),
            map_unresolved := map_unresolved self @ unresolved_of lower d mids src items\<rparr>,
       fold set_add (map (batch_identifier src) items) dids), None)"
  using assms
proof (induction items arbitrary: self dids)
  case Nil
  then show ?case by (simp add: linked_to_def unresolved_of_def)
next
  case (Cons item items)
  from Cons.prems(1) have src: "aid_source (data_id item) = src" and hid: "has_identifier item"
    and rest: "\<forall>item \<in> set items. aid_source (data_id item) = src \<and> has_identifier item"
    by auto
  from identifier_Inr[OF hid, of src] obtain s where
    s: "AbstractID_identifier (data_id item) = Inr s"
    and bi: "batch_identifier src item = Identifier_init src (Some s)" by blast
  let ?i = "batch_identifier src item"
  show ?case
  proof (cases "set_contains mids ?i")
    case True
    have "resolve lower src d mids (item # items) (self, dids) =
          resolve lower src d mids items (self, set_add ?i dids)"
      using True src s bi Cons.prems(2) by (simp add: Let_def)
    also have "\<dots> = ((self\<lparr>map_map := add_links (\<lambda>k. linked_to lower d mids src k items) (map_map self),
            map_unresolved := map_unresolved self @ unresolved_of lower d mids src items\<rparr>,
       fold set_add (map (batch_identifier src) items) (set_add ?i dids)), None)"
      using Cons.IH[OF rest Cons.prems(2,3,4)] .
    finally show ?thesis using True by (simp add: linked_to_def unresolved_of_def)
  next
    case False
    show ?thesis
    proof (cases "find_header lower d (data_names item)")
      case None
      let ?self1 = "self\<lparr>map_unresolved := map_unresolved self @ [?i]\<rparr>"
      have "resolve lower src d mids (item # items) (self, dids) =
            resolve lower src d mids items (?self1, set_add ?i dids)"
        using False None src s bi Cons.prems(2) by (simp add: Let_def)
      also have "\<dots> = ((?self1\<lparr>map_map := add_links (\<lambda>k. linked_to lower d mids src k items) (map_map ?self1),
            map_unresolved := map_unresolved ?self1 @ unresolved_of lower d mids src items\<rparr>,
         fold set_add (map (batch_identifier src) items) (set_add ?i dids)), None)"
        using Cons.prems(2,3,4) by (intro Cons.IH[OF rest]) simp_all
      finally show ?thesis using False None by (simp add: linked_to_def unresolved_of_def)
    next
      case (Some k)
      from find_header_range[OF Some] Cons.prems(4) have "k \<in> fst ` set (map_map self)" by blast
      then obtain h where h: "map_of (map_map self) k = Some h"
        by (metis domD dom_map_of_conv_image_fst)
      let ?m1 = "AList.update k (h\<lparr>hd_identifiers := hd_identifiers h @ [?i]\<rparr>) (map_map self)"
      let ?self1 = "self\<lparr>map_map := ?m1\<rparr>"
      have m1: "?m1 = add_links (\<lambda>k'. if k' = k then [?i] else []) (map_map self)"
        using update_add_links[OF Cons.prems(3) h] .
      have "resolve lower src d mids (item # items) (self, dids) =
            resolve lower src d mids items (?self1, set_add ?i dids)"
        using False Some h src s bi Cons.prems(2) by (simp add: Let_def)
      also have "\<dots> = ((?self1\<lparr>map_map := add_links (\<lambda>k. linked_to lower d mids src k items) (map_map ?self1),
            map_unresolved := map_unresolved ?self1 @ unresolved_of lower d mids src items\<rparr>,
         fold set_add (map (batch_identifier src) items) (set_add ?i dids)), None)"
      proof (intro Cons.IH[OF rest])
        show "map_source ?self1 = Some src" using Cons.prems(2) by simp
        show "distinct (map fst (map_map ?self1))" using Cons.prems(3) by (simp add: m1)
        show "\<forall>x k. d x = Some k \<longrightarrow> k \<in> fst ` set (map_map ?self1)"
          using Cons.prems(4) by (simp add: AList.dom_update)
      qed
      also have "add_links (\<lambda>k. linked_to lower d mids src k items) (map_map ?self1)
          = add_links (\<lambda>k'. linked_to lower d mids src k' (item # items)) (map_map self)"
        using False Some by (simp add: m1 add_links_compose linked_to_def) (rule arg_cong2[where f=add_links], auto)
      finally show ?thesis using False Some by (simp add: unresolved_of_def)
    qed
  qed
qed

lemma Map_append_ok:
  assumes "items \<noteq> []"
    and "\<forall>item \<in> set items. aid_source (data_id item) = src \<and> has_identifier item"
    and "src \<noteq> none"
    and "distinct (map fst (map_map self))"
  shows "Map_append lower (Some items) self =
     (\<lparr>map_map = add_links (\<lambda>k. linked_to lower (name_to_header_of lower (map_map self))
                        (map_identifiers_of src (map_map self)) src k items) (map_map self),
       map_source = Some src,
       map_unresolved = unresolved_of lower (name_to_header_of lower (map_map self))
                          (map_identifiers_of src (map_map self)) src items,
       map_dangled = set_difference (map_identifiers_of src (map_map self))
                       (fold set_add (map (batch_identifier src) items) [])\<rparr>, None)"
proof -
  from assms(1) obtain d0 ds where items: "items = d0 # ds" by (cases items) auto
  with assms(2) have src: "aid_source (data_id d0) = src" by simp
  let ?self1 = "self\<lparr>map_source := None, map_unresolved := [], map_dangled := [],
                      map_source := Some src\<rparr>"
  have r: "resolve lower src (name_to_header_of lower (map_map self)) (map_identifiers_of src (map_map self))
             items (?self1, []) =
     ((?self1\<lparr>map_map := add_links (\<lambda>k. linked_to lower (name_to_header_of lower (map_map self))
                        (map_identifiers_of src (map_map self)) src k items) (map_map ?self1),
            map_unresolved := map_unresolved ?self1 @ unresolved_of lower (name_to_header_of lower (map_map self))
                          (map_identifiers_of src (map_map self)) src items\<rparr>,
       fold set_add (map (batch_identifier src) items) []), None)"
    using assms(2,4) by (intro resolve_ok) (auto dest: name_to_header_range)
  show ?thesis
    unfolding Map_append_def
    using src assms(3) r by (simp add: items Let_def del: resolve.simps)
qed



lemma name_to_header_add_links [simp]:
  "name_to_header_of lower (add_links f m) = name_to_header_of lower m"
  by (rule name_to_header_cong) (simp add: add_links_def comp_def)

lemma batch_identifier_source [simp]: "id_source (batch_identifier src item) = src"
  by (simp add: batch_identifier_def Identifier_init_def)


lemma occurrences_add_links:
  "occurrences x (add_links f m) =
     occurrences x m + sum_list (map (\<lambda>p. count_identifier x (f (fst p))) m)"
  by (induction m) (auto simp: occurrences_def add_links_def count_identifier_def case_prod_unfold)

lemma occurrences_pos_iff:
  "0 < occurrences x m \<longleftrightarrow> (\<exists>p \<in> set m. \<exists>y \<in> set (hd_identifiers (snd p)). Identifier_eq x y)"
  by (induction m)
    (auto simp: occurrences_def count_identifier_def case_prod_unfold filter_empty_conv)

lemma set_contains_occurrences:
  assumes "id_source x = src"
  shows "set_contains (map_identifiers_of src m) x \<longleftrightarrow> 0 < occurrences x m"
proof -
  have "\<And>y. Identifier_eq x y \<Longrightarrow> id_source y = src"
    using assms by (simp add: Identifier_eq_iff)
  then show ?thesis
    unfolding set_contains_map_identifiers occurrences_pos_iff
    by (auto simp: source_identifiers_def)
qed

lemma count_distinct:
  "distinct (map g items) \<Longrightarrow> item \<in> set items \<Longrightarrow>
   length (filter (\<lambda>j. g j = g item \<and> Q j) items) = (if Q item then 1 else 0)"
proof (induction items)
  case Nil
  then show ?case by simp
next
  case (Cons a items)
  show ?case
  proof (cases "a = item")
    case True
    with Cons.prems have "g item \<notin> g ` set items" by simp
    then have "\<forall>j \<in> set items. g j \<noteq> g item" by (metis imageI)
    then have "filter (\<lambda>j. g j = g item \<and> Q j) items = []"
      by (auto simp: filter_empty_conv)
    with True show ?thesis by simp
  next
    case False
    with Cons.prems have "item \<in> set items" "g a \<noteq> g item" "distinct (map g items)"
      by (auto simp: image_iff)
    with Cons.IH show ?thesis by simp
  qed
qed

lemma batch_identifier_eq:
  "Identifier_eq (batch_identifier src a) (batch_identifier src b)
     \<longleftrightarrow> aid_identifier (data_id b) = aid_identifier (data_id a)"
  by (auto simp: Identifier_eq_iff batch_identifier_def Identifier_init_def)

lemma count_batch:
  assumes "distinct (map (\<lambda>item. aid_identifier (data_id item)) items)" and "item \<in> set items"
  shows "count_identifier (batch_identifier src item)
           (map (batch_identifier src) (filter Q items)) = (if Q item then 1 else 0)"
proof -
  have "count_identifier (batch_identifier src item) (map (batch_identifier src) (filter Q items))
      = length (filter (\<lambda>j. aid_identifier (data_id j) = aid_identifier (data_id item) \<and> Q j) items)"
    by (simp add: count_identifier_def filter_map comp_def batch_identifier_eq conj_commute)
  with count_distinct[OF assms, of Q] show ?thesis by simp
qed

lemma sum_key:
  "distinct (map fst m) \<Longrightarrow>
   sum_list (map (\<lambda>p. if k = fst p then (1::nat) else 0) m) = (if k \<in> fst ` set m then 1 else 0)"
  by (induction m) (auto simp: image_iff)

text \<open>
  C2: for every non-empty batch of records of one source (not \<^verbatim>\<open>Source.none\<close>), each
  with an identifier and no two with the same identifier (a batch is a \<^verbatim>\<open>Reader\<close>, a
  \<^verbatim>\<open>dict\<close> keyed by the identifier), and for every map, \<^verbatim>\<open>append\<close> raises nothing and
  every identifier of the batch ends in exactly one of three outcomes: it was in the map
  before the call, and the call adds it to no header and not to \<^verbatim>\<open>unresolved\<close>; or it
  was not in the map, and the call appends it once to exactly one header and not to
  \<^verbatim>\<open>unresolved\<close>; or it was not in the map, and the call appends it once to
  \<^verbatim>\<open>unresolved\<close> and to no header.
\<close>

theorem Map_append_partition:
  assumes "items \<noteq> []"
    and "\<forall>item \<in> set items. aid_source (data_id item) = src \<and> has_identifier item"
    and "src \<noteq> none"
    and "distinct (map fst (map_map self))"
    and "distinct (map (\<lambda>item. aid_identifier (data_id item)) items)"
    and "item \<in> set items"
  shows "snd (Map_append lower (Some items) self) = None
    \<and> (let x = batch_identifier src item;
            before = occurrences x (map_map self);
            after = occurrences x (map_map (fst (Map_append lower (Some items) self)));
            unres = count_identifier x (map_unresolved (fst (Map_append lower (Some items) self)))
        in (0 < before \<and> after = before \<and> unres = 0)
         \<or> (before = 0 \<and> after = 1 \<and> unres = 0)
         \<or> (before = 0 \<and> after = 0 \<and> unres = 1))"
proof -
  define d where "d = name_to_header_of lower (map_map self)"
  define mids where "mids = map_identifiers_of src (map_map self)"
  define x where "x = batch_identifier src item"
  note ok = Map_append_ok[where lower = lower, OF assms(1-4), folded d_def mids_def]
  have mapped: "set_contains mids x \<longleftrightarrow> 0 < occurrences x (map_map self)"
    by (simp add: mids_def x_def set_contains_occurrences)
  have link: "count_identifier x (linked_to lower d mids src k items) =
      (if \<not> set_contains mids x \<and> find_header lower d (data_names item) = Some k then 1 else 0)" for k
    unfolding linked_to_def x_def by (rule count_batch[OF assms(5,6)])
  have unres: "count_identifier x (unresolved_of lower d mids src items) =
      (if \<not> set_contains mids x \<and> find_header lower d (data_names item) = None then 1 else 0)"
    unfolding unresolved_of_def x_def by (rule count_batch[OF assms(5,6)])
  have keys: "find_header lower d (data_names item) = Some k \<Longrightarrow> k \<in> fst ` set (map_map self)" for k
    by (auto simp: d_def dest: find_header_range name_to_header_range)
  have after: "occurrences x (add_links (\<lambda>k. linked_to lower d mids src k items) (map_map self)) =
      occurrences x (map_map self)
        + (if \<not> set_contains mids x \<and> find_header lower d (data_names item) \<noteq> None then 1 else 0)"
  proof (cases "\<not> set_contains mids x \<and> find_header lower d (data_names item) \<noteq> None")
    case True
    then obtain k where k: "find_header lower d (data_names item) = Some k" by auto
    have "sum_list (map (\<lambda>p. count_identifier x (linked_to lower d mids src (fst p) items)) (map_map self))
        = sum_list (map (\<lambda>p. if k = fst p then (1::nat) else 0) (map_map self))"
      using True k by (simp add: link)
    also have "\<dots> = 1" using keys[OF k] assms(4) by (simp add: sum_key)
    finally show ?thesis using True by (simp add: occurrences_add_links)
  next
    case False
    then have "sum_list (map (\<lambda>p. count_identifier x (linked_to lower d mids src (fst p) items)) (map_map self)) = 0"
      by (auto simp: link)
    with False show ?thesis by (auto simp: occurrences_add_links)
  qed
  show ?thesis
    unfolding ok fst_conv snd_conv Let_def x_def[symmetric]
    using mapped after unres by (cases "find_header lower d (data_names item)") auto
qed

theorem Map_append_partition_witness:
  "\<forall>lower.
     snd (Map_append lower (Some EGFP_batch) EGFP_map) = None
     \<and> (let x = batch_identifier fpbase (record_of fpbase ''1'' [''EGFP'']);
            before = occurrences x (map_map EGFP_map);
            after = occurrences x (map_map (fst (Map_append lower (Some EGFP_batch) EGFP_map)));
            unres = count_identifier x
                      (map_unresolved (fst (Map_append lower (Some EGFP_batch) EGFP_map)))
        in (0 < before \<and> after = before \<and> unres = 0)
         \<or> (before = 0 \<and> after = 1 \<and> unres = 0)
         \<or> (before = 0 \<and> after = 0 \<and> unres = 1))"
proof
  fix lower
  have 1: "EGFP_batch \<noteq> []" by (simp add: EGFP_batch_def)
  have 2: "\<forall>item \<in> set EGFP_batch. aid_source (data_id item) = fpbase \<and> has_identifier item"
    by (simp add: EGFP_batch_def record_of_def has_identifier_def)
  have 3: "fpbase \<noteq> none" by simp
  have 4: "distinct (map fst (map_map EGFP_map))" by (simp add: EGFP_map_def)
  have 5: "distinct (map (\<lambda>item. aid_identifier (data_id item)) EGFP_batch)"
    by (simp add: EGFP_batch_def record_of_def)
  have 6: "record_of fpbase ''1'' [''EGFP''] \<in> set EGFP_batch"
    by (simp add: EGFP_batch_def)
  show "snd (Map_append lower (Some EGFP_batch) EGFP_map) = None
     \<and> (let x = batch_identifier fpbase (record_of fpbase ''1'' [''EGFP'']);
            before = occurrences x (map_map EGFP_map);
            after = occurrences x (map_map (fst (Map_append lower (Some EGFP_batch) EGFP_map)));
            unres = count_identifier x
                      (map_unresolved (fst (Map_append lower (Some EGFP_batch) EGFP_map)))
        in (0 < before \<and> after = before \<and> unres = 0)
         \<or> (before = 0 \<and> after = 1 \<and> unres = 0)
         \<or> (before = 0 \<and> after = 0 \<and> unres = 1))"
    by (rule Map_append_partition[where lower = lower, OF 1 2 3 4 5 6])
qed





















lemma Header_grown_refl [simp]: "Header_grown h h"
  by (simp add: Header_grown_def)

lemma Map_grown_refl [simp]: "Map_grown m m"
  by (simp add: Map_grown_def list_all2_refl)






lemma linked_to_Nil [simp]: "linked_to lower d mids src k [] = []"
  by (simp add: linked_to_def)






section \<open>Properties of the validators\<close>

subsection \<open>\<^verbatim>\<open>AuditHeader.audit\<close>\<close>

text \<open>What the loop counts: the counter of final colons stays 0, and the verdict is the
  conjunction of the three other rules.\<close>

lemma AuditHeader_fold:
  "error_char_last (fold (AuditHeader_step len) (enumerate n s) c) = error_char_last c
   \<and> (error_char_lower (fold (AuditHeader_step len) (enumerate n s) c) = 0 \<longleftrightarrow>
        error_char_lower c = 0 \<and> (\<forall>x \<in> set s. x = CHR '':'' \<or> x \<notin> set ascii_lowercase))
   \<and> (error_char_illegal (fold (AuditHeader_step len) (enumerate n s) c) = 0 \<longleftrightarrow>
        error_char_illegal c = 0
        \<and> (\<forall>x \<in> set s. x = CHR '':'' \<or> x \<in> set ascii_lowercase
              \<or> x \<in> set ascii_uppercase_digits))
   \<and> colon_count (fold (AuditHeader_step len) (enumerate n s) c)
        = colon_count c + length (filter (\<lambda>x. x = CHR '':'') s)
   \<and> (error_colon_multiple (fold (AuditHeader_step len) (enumerate n s) c) = 0 \<longleftrightarrow>
        error_colon_multiple c = 0
        \<and> (length (filter (\<lambda>x. x = CHR '':'') s) = 0
            \<or> colon_count c + length (filter (\<lambda>x. x = CHR '':'') s) \<le> 1))"
proof (induction s arbitrary: n c)
  case Nil
  then show ?case by simp
next
  case (Cons a s)
  note IH = Cons.IH[of "Suc n" "AuditHeader_step len (n, a) c"]
  consider (colon) "a = CHR '':''"
    | (lower) "a \<noteq> CHR '':''" "a \<in> set ascii_lowercase"
    | (illegal) "a \<noteq> CHR '':''" "a \<notin> set ascii_lowercase" "a \<notin> set ascii_uppercase_digits"
    | (ok) "a \<noteq> CHR '':''" "a \<notin> set ascii_lowercase" "a \<in> set ascii_uppercase_digits"
    by blast
  then show ?case
  proof cases
    case colon
    with IH show ?thesis by (auto simp: AuditHeader_step_def Let_def)
  next
    case lower
    with IH show ?thesis by (simp add: AuditHeader_step_def)
  next
    case illegal
    with IH show ?thesis by (simp add: AuditHeader_step_def)
  next
    case ok
    with IH show ?thesis by (simp add: AuditHeader_step_def)
  qed
qed

lemma AuditHeader_valid_counters:
  "valid (AuditHeader_audit (Some s) self) \<longleftrightarrow>
      s \<noteq> [] \<and> error_char_lower (AuditHeader_count s) = 0
      \<and> error_char_illegal (AuditHeader_count s) = 0
      \<and> error_char_last (AuditHeader_count s) = 0
      \<and> error_colon_multiple (AuditHeader_count s) = 0"
  by (simp add: AuditHeader_audit_def str_truthy_def Let_def)

lemma AuditHeader_count_fold:
  "AuditHeader_count s = fold (AuditHeader_step (length s)) (enumerate 0 s)
       \<lparr>error_char_lower = 0, error_char_illegal = 0, error_char_last = 0,
        error_colon_multiple = 0, colon_count = 0\<rparr>"
  by (simp add: AuditHeader_count_def)

lemma AuditHeader_count_last: "error_char_last (AuditHeader_count s) = 0"
  unfolding AuditHeader_count_fold
  using AuditHeader_fold[of "length s" 0 s "\<lparr>error_char_lower = 0, error_char_illegal = 0,
        error_char_last = 0, error_colon_multiple = 0, colon_count = 0\<rparr>"]
  by simp

lemma AuditHeader_count_lower:
  "error_char_lower (AuditHeader_count s) = 0 \<longleftrightarrow>
      (\<forall>x \<in> set s. x = CHR '':'' \<or> x \<notin> set ascii_lowercase)"
  unfolding AuditHeader_count_fold
  using AuditHeader_fold[of "length s" 0 s "\<lparr>error_char_lower = 0, error_char_illegal = 0,
        error_char_last = 0, error_colon_multiple = 0, colon_count = 0\<rparr>"]
  by simp

lemma AuditHeader_count_illegal:
  "error_char_illegal (AuditHeader_count s) = 0 \<longleftrightarrow>
      (\<forall>x \<in> set s. x = CHR '':'' \<or> x \<in> set ascii_lowercase \<or> x \<in> set ascii_uppercase_digits)"
  unfolding AuditHeader_count_fold
  using AuditHeader_fold[of "length s" 0 s "\<lparr>error_char_lower = 0, error_char_illegal = 0,
        error_char_last = 0, error_colon_multiple = 0, colon_count = 0\<rparr>"]
  by simp

lemma AuditHeader_count_multiple:
  "error_colon_multiple (AuditHeader_count s) = 0 \<longleftrightarrow>
      length (filter (\<lambda>x. x = CHR '':'') s) \<le> 1"
proof -
  have "error_colon_multiple (AuditHeader_count s) = 0 \<longleftrightarrow>
      (length (filter (\<lambda>x. x = CHR '':'') s) = 0 \<or> length (filter (\<lambda>x. x = CHR '':'') s) \<le> 1)"
    unfolding AuditHeader_count_fold
    using AuditHeader_fold[of "length s" 0 s "\<lparr>error_char_lower = 0, error_char_illegal = 0,
        error_char_last = 0, error_colon_multiple = 0, colon_count = 0\<rparr>"]
    by simp
  then show ?thesis by linarith
qed

lemma upper_not_lower: "x \<in> set ascii_uppercase_digits \<Longrightarrow> x \<notin> set ascii_lowercase"
  by (auto simp: ascii_uppercase_digits_def ascii_lowercase_def)

lemma AuditHeader_valid_iff:
  "valid (AuditHeader_audit (Some s) self) \<longleftrightarrow>
     s \<noteq> []
     \<and> (\<forall>x \<in> set s. x = CHR '':'' \<or> x \<in> set ascii_uppercase_digits)
     \<and> length (filter (\<lambda>x. x = CHR '':'') s) \<le> 1"
proof -
  have key: "((\<forall>x \<in> set s. x = CHR '':'' \<or> x \<notin> set ascii_lowercase)
      \<and> (\<forall>x \<in> set s. x = CHR '':'' \<or> x \<in> set ascii_lowercase \<or> x \<in> set ascii_uppercase_digits))
    = (\<forall>x \<in> set s. x = CHR '':'' \<or> x \<in> set ascii_uppercase_digits)"
    using upper_not_lower by blast
  have v: "valid (AuditHeader_audit (Some s) self) \<longleftrightarrow>
     s \<noteq> []
     \<and> ((\<forall>x \<in> set s. x = CHR '':'' \<or> x \<notin> set ascii_lowercase)
      \<and> (\<forall>x \<in> set s. x = CHR '':'' \<or> x \<in> set ascii_lowercase \<or> x \<in> set ascii_uppercase_digits))
     \<and> length (filter (\<lambda>x. x = CHR '':'') s) \<le> 1"
    unfolding AuditHeader_valid_counters AuditHeader_count_last AuditHeader_count_lower
      AuditHeader_count_illegal AuditHeader_count_multiple
    by simp
  show ?thesis unfolding v key ..
qed

lemma AuditHeader_final_colon:
  assumes "s \<noteq> []" and "set s \<subseteq> set ascii_uppercase_digits"
  shows "valid (AuditHeader_audit (Some (s @ '':'')) self)"
proof -
  have "CHR '':'' \<notin> set ascii_uppercase_digits" by (simp add: ascii_uppercase_digits_def)
  with assms(2) have "filter (\<lambda>x. x = CHR '':'') s = []"
    by (auto simp: filter_empty_conv)
  with assms show ?thesis
    unfolding AuditHeader_valid_iff by auto
qed

text \<open>
  C6 (a header is valid if and only if it is not empty, has only characters of
  \<^verbatim>\<open>[A-Z0-9:]\<close>, at most one colon, and no colon at its end). The code accepts the
  header \<^verbatim>\<open>A:\<close>: a colon takes the first branch of the chain, so the last branch,
  which counts a final colon, is never reached.
\<close>

theorem AuditHeader_final_colon_valid:
  "valid (AuditHeader_audit (Some ''A:'') AbstractAudit_init)
   \<and> errors (AuditHeader_audit (Some ''A:'') AbstractAudit_init) = ErrorList []"
  by (simp add: AuditHeader_audit_def AuditHeader_count_def AuditHeader_step_def
      ascii_lowercase_def ascii_uppercase_digits_def str_truthy_def enumerate_eq_zip)

subsection \<open>\<^verbatim>\<open>AuditUrl.audit\<close>\<close>

text \<open>
  C7 (a url with a \<^verbatim>\<open>?\<close> or a \<^verbatim>\<open>#\<close> is invalid). The code accepts
  \<^verbatim>\<open>http://www.example.com/a?b=1\<close> and \<^verbatim>\<open>https://www.example.com/a#b\<close>: the two tests
  run on the list of path segments and find a segment that is exactly \<^verbatim>\<open>?\<close> or
  \<^verbatim>\<open>#\<close>, as in \<^verbatim>\<open>https://www.example.com/?\<close>, and nothing else.
\<close>

theorem AuditUrl_query_fragment_valid:
  "valid (AuditUrl_audit (Some ''http://www.example.com/a?b=1'') AbstractAudit_init)
   \<and> valid (AuditUrl_audit (Some ''https://www.example.com/a#b'') AbstractAudit_init)
   \<and> \<not> valid (AuditUrl_audit (Some ''https://www.example.com/?'') AbstractAudit_init)"
  by (simp add: AuditUrl_audit_def str_truthy_def)

subsection \<open>\<^verbatim>\<open>AuditReference.audit\<close>\<close>

text \<open>On a reference with a url the method writes \<^verbatim>\<open>is_url\<close> and the url
  sub-validator, and neither \<^verbatim>\<open>valid\<close> nor \<^verbatim>\<open>errors\<close>.\<close>

lemma AuditReference_audit_url:
  "str_truthy (ref_url d) \<Longrightarrow>
   AuditReference_audit subs (Some d) self =
     (self\<lparr>is_url := True, ar_url := AuditUrl_audit (ref_url d) (ar_url self)\<rparr>, None)"
  by (simp add: AuditReference_audit_def Reference_bool_def)

text \<open>
  C8 (the verdict of a reference with a url is the verdict of the url). On a fresh
  \<^verbatim>\<open>AuditReference\<close> and a reference whose url passes \<^verbatim>\<open>AuditUrl\<close>, the url
  sub-validator is valid and the reference stays invalid with the error
  \<^verbatim>\<open>unchecked\<close>: the method returns before the lines that compute its verdict.
\<close>

theorem AuditReference_url_verdict_unset:
  "valid (AuditUrl_audit (Some ''https://www.example.com/page'') AbstractAudit_init)
   \<and> AuditReference_audit subs
        (Some \<lparr>ref_url = Some ''https://www.example.com/page'', ref_title = None,
               ref_authors = [], ref_year = None, ref_journal = None, ref_volume = None,
               ref_issue = None, ref_pages = None, ref_doi = None, ref_url_pubmed = None,
               ref_url_doi = None\<rparr>)
        AuditReference_init
      = (AuditReference_init\<lparr>is_url := True,
             ar_url := \<lparr>valid = True, errors = ErrorList []\<rparr>\<rparr>, None)
   \<and> \<not> valid (AuditReference_init\<lparr>is_url := True,
             ar_url := \<lparr>valid = True, errors = ErrorList []\<rparr>\<rparr>)"
  by (simp add: AuditReference_audit_def Reference_bool_def AuditUrl_audit_def str_truthy_def
      AuditReference_init_def AbstractAudit_init_def)

subsection \<open>\<^verbatim>\<open>AuditSpectrumIntensity.audit\<close>\<close>

lemma float_lt_irrefl [simp]: "\<not> float_lt x x"
  by (cases x) auto

lemma float_lt_trans: "float_lt x y \<Longrightarrow> float_lt y z \<Longrightarrow> float_lt x z"
  by (cases x; cases y; cases z) auto

lemma float_lt_total: "x \<noteq> NaN \<Longrightarrow> y \<noteq> NaN \<Longrightarrow> x \<noteq> y \<Longrightarrow> float_lt x y \<or> float_lt y x"
  by (cases x; cases y) auto

lemma float_lt_asym: "float_lt x y \<Longrightarrow> \<not> float_lt y x"
  by (cases x; cases y) auto

lemma float_lt_NaN [simp]: "\<not> float_lt x NaN" "\<not> float_lt NaN x"
  by (cases x, auto)+

lemma in_range_iff: "x \<noteq> NaN \<Longrightarrow> in_range x \<longleftrightarrow> \<not> float_lt x (Num 0) \<and> \<not> float_lt (Num 100) x"
  by (cases x) (auto simp: in_range_def)

lemma fold_NaN_max:
  "max_intensity_value st = NaN \<Longrightarrow>
   max_intensity_value (fold AuditSpectrumIntensity_step xs st) = NaN"
proof (induction xs arbitrary: st)
  case Nil
  then show ?case by simp
next
  case (Cons x xs)
  have "max_intensity_value (AuditSpectrumIntensity_step x st) = NaN"
    using Cons.prems by (simp add: AuditSpectrumIntensity_step_def Let_def float_gt_def)
  from Cons.IH[OF this] show ?case by simp
qed

lemma fold_invariant:
  assumes "max_intensity_value st \<noteq> NaN" and "min_intensity_value st \<noteq> NaN"
    and "\<not> float_lt (max_intensity_value st) (min_intensity_value st)"
  shows "valid_value_min (fold AuditSpectrumIntensity_step xs st)
            = (valid_value_min st \<and> (\<forall>x \<in> set xs. \<not> float_lt x (Num 0)))
    \<and> valid_value_max (fold AuditSpectrumIntensity_step xs st)
            = (valid_value_max st \<and> (\<forall>x \<in> set xs. \<not> float_lt (Num 100) x))
    \<and> max_intensity_value (fold AuditSpectrumIntensity_step xs st) \<noteq> NaN
    \<and> min_intensity_value (fold AuditSpectrumIntensity_step xs st) \<noteq> NaN
    \<and> max_intensity_value (fold AuditSpectrumIntensity_step xs st)
          \<in> insert (max_intensity_value st) (set xs)
    \<and> min_intensity_value (fold AuditSpectrumIntensity_step xs st)
          \<in> insert (min_intensity_value st) (set xs)
    \<and> (\<forall>x \<in> insert (max_intensity_value st) (set xs).
          \<not> float_lt (max_intensity_value (fold AuditSpectrumIntensity_step xs st)) x)
    \<and> (\<forall>x \<in> insert (min_intensity_value st) (set xs).
          \<not> float_lt x (min_intensity_value (fold AuditSpectrumIntensity_step xs st)))"
  using assms
proof (induction xs arbitrary: st)
  case Nil
  then show ?case by simp
next
  case (Cons x xs)
  let ?fin = "AuditSpectrumIntensity_step x st"
  let ?mx = "max_intensity_value st" and ?mn = "min_intensity_value st"
  have vmin: "valid_value_min ?fin = (valid_value_min st \<and> \<not> float_lt x (Num 0))"
    by (auto simp: AuditSpectrumIntensity_step_def Let_def)
  have vmax: "valid_value_max ?fin = (valid_value_max st \<and> \<not> float_lt (Num 100) x)"
    by (auto simp: AuditSpectrumIntensity_step_def Let_def float_gt_def)
  have mx: "max_intensity_value ?fin = (if float_lt ?mx x then x else ?mx)"
    by (auto simp: AuditSpectrumIntensity_step_def Let_def float_gt_def)
  have mn: "min_intensity_value ?fin = (if \<not> float_lt ?mx x \<and> float_lt x ?mn then x else ?mn)"
    by (auto simp: AuditSpectrumIntensity_step_def Let_def float_gt_def)
  have xn: "float_lt ?mx x \<Longrightarrow> x \<noteq> NaN" "float_lt x ?mn \<Longrightarrow> x \<noteq> NaN" by auto
  have p1: "max_intensity_value ?fin \<noteq> NaN" using Cons.prems xn by (auto simp: mx)
  have p2: "min_intensity_value ?fin \<noteq> NaN" using Cons.prems xn by (auto simp: mn)
  have p3: "\<not> float_lt (max_intensity_value ?fin) (min_intensity_value ?fin)"
    using Cons.prems by (auto simp: mx mn dest: float_lt_trans float_lt_asym)
  note IH = Cons.IH[OF p1 p2 p3]
  have a: "\<not> float_lt (max_intensity_value (fold AuditSpectrumIntensity_step xs ?fin)) ?mx"
  proof
    assume l: "float_lt (max_intensity_value (fold AuditSpectrumIntensity_step xs ?fin)) ?mx"
    from IH have "\<not> float_lt (max_intensity_value (fold AuditSpectrumIntensity_step xs ?fin)) (max_intensity_value ?fin)"
      by simp
    with l show False by (auto simp: mx dest: float_lt_trans split: if_splits)
  qed
  have b: "\<not> float_lt (max_intensity_value (fold AuditSpectrumIntensity_step xs ?fin)) x"
  proof
    assume l: "float_lt (max_intensity_value (fold AuditSpectrumIntensity_step xs ?fin)) x"
    then have xN: "x \<noteq> NaN" by auto
    from IH have n: "\<not> float_lt (max_intensity_value (fold AuditSpectrumIntensity_step xs ?fin)) (max_intensity_value ?fin)"
      by simp
    show False
    proof (cases "float_lt ?mx x")
      case True
      with n l show False by (simp add: mx)
    next
      case False
      with n have n': "\<not> float_lt (max_intensity_value (fold AuditSpectrumIntensity_step xs ?fin)) ?mx"
        by (simp add: mx)
      have "x = ?mx \<or> float_lt x ?mx"
        using False xN Cons.prems(1) float_lt_total[of x ?mx] by auto
      with l n' show False by (auto dest: float_lt_trans)
    qed
  qed
  have c: "\<not> float_lt ?mn (min_intensity_value (fold AuditSpectrumIntensity_step xs ?fin))"
  proof
    assume l: "float_lt ?mn (min_intensity_value (fold AuditSpectrumIntensity_step xs ?fin))"
    from IH have "\<not> float_lt (min_intensity_value ?fin) (min_intensity_value (fold AuditSpectrumIntensity_step xs ?fin))"
      by simp
    with l show False by (auto simp: mn dest: float_lt_trans split: if_splits)
  qed
  have d: "\<not> float_lt x (min_intensity_value (fold AuditSpectrumIntensity_step xs ?fin))"
  proof
    assume l: "float_lt x (min_intensity_value (fold AuditSpectrumIntensity_step xs ?fin))"
    then have xN: "x \<noteq> NaN" by auto
    from IH have n: "\<not> float_lt (min_intensity_value ?fin) (min_intensity_value (fold AuditSpectrumIntensity_step xs ?fin))"
      by simp
    show False
    proof (cases "\<not> float_lt ?mx x \<and> float_lt x ?mn")
      case True
      with n l show False by (simp add: mn)
    next
      case False
      with n have n': "\<not> float_lt ?mn (min_intensity_value (fold AuditSpectrumIntensity_step xs ?fin))"
        by (simp add: mn)
      have "x = ?mn \<or> float_lt ?mn x"
      proof (cases "float_lt ?mx x")
        case True
        have "?mn = ?mx \<or> float_lt ?mn ?mx"
          using Cons.prems float_lt_total[of ?mn ?mx] by auto
        with True show ?thesis by (auto dest: float_lt_trans)
      next
        case f: False
        with False have "\<not> float_lt x ?mn" by simp
        then show ?thesis using xN Cons.prems(2) float_lt_total[of x ?mn] by auto
      qed
      with l n' show False by (auto dest: float_lt_trans)
    qed
  qed
  from IH a b c d show ?case
    by (simp add: vmin vmax) (auto simp: mx mn split: if_splits)
qed


lemma float_ne_Num: "x \<noteq> NaN \<Longrightarrow> float_ne x (Num r) \<longleftrightarrow> x \<noteq> Num r"
  by (simp add: float_ne_def)

lemma intensity_valid_iff:
  "valid (AuditSpectrumIntensity_audit fmt data self) \<longleftrightarrow>
     (\<exists>d0 ds. data = Some (d0 # ds) \<and> 2 \<le> length ds \<and> d0 \<noteq> NaN
        \<and> (\<forall>x \<in> set (d0 # ds). x = NaN \<or> in_range x)
        \<and> Num 100 \<in> set (d0 # ds) \<and> Num 0 \<in> set (d0 # ds))"
proof (cases data)
  case None
  then show ?thesis by (simp add: AuditSpectrumIntensity_audit_def)
next
  case (Some xs)
  show ?thesis
  proof (cases xs)
    case Nil
    with Some show ?thesis by (simp add: AuditSpectrumIntensity_audit_def)
  next
    case (Cons d0 ds)
    let ?init = "\<lparr>valid_value_min = True, valid_value_max = True,
                       max_intensity_value = d0, min_intensity_value = d0\<rparr>"
    let ?fin = "fold AuditSpectrumIntensity_step (d0 # ds) ?init"
    have v: "valid (AuditSpectrumIntensity_audit fmt data self) \<longleftrightarrow>
        2 \<le> length ds \<and> valid_value_min ?fin \<and> valid_value_max ?fin
        \<and> \<not> float_ne (max_intensity_value ?fin) (Num 100)
        \<and> \<not> float_ne (min_intensity_value ?fin) (Num 0)"
      unfolding Some Cons AuditSpectrumIntensity_audit_def
      by (simp only: option.case list.case Let_def) auto
    show ?thesis
    proof (cases "d0 = NaN")
      case True
      have "max_intensity_value ?fin = NaN"
        by (rule fold_NaN_max) (simp add: True)
      then have "\<not> valid (AuditSpectrumIntensity_audit fmt data self)"
        unfolding v by (simp add: float_ne_def)
      with True Some Cons show ?thesis by simp
    next
      case False
      have inv: "valid_value_min ?fin = (\<forall>x \<in> set (d0 # ds). \<not> float_lt x (Num 0))"
        "valid_value_max ?fin = (\<forall>x \<in> set (d0 # ds). \<not> float_lt (Num 100) x)"
        "max_intensity_value ?fin \<noteq> NaN" "min_intensity_value ?fin \<noteq> NaN"
        "max_intensity_value ?fin \<in> set (d0 # ds)" "min_intensity_value ?fin \<in> set (d0 # ds)"
        "\<forall>x \<in> set (d0 # ds). \<not> float_lt (max_intensity_value ?fin) x"
        "\<forall>x \<in> set (d0 # ds). \<not> float_lt x (min_intensity_value ?fin)"
      proof -
        have pre: "max_intensity_value ?init \<noteq> NaN" "min_intensity_value ?init \<noteq> NaN"
          "\<not> float_lt (max_intensity_value ?init) (min_intensity_value ?init)"
          using False by (simp_all add: float_lt_irrefl)
        note I = fold_invariant[where st = ?init and xs = "d0 # ds", OF pre]
        show "valid_value_min ?fin = (\<forall>x \<in> set (d0 # ds). \<not> float_lt x (Num 0))"
          using I by (simp del: fold_simps)
        show "valid_value_max ?fin = (\<forall>x \<in> set (d0 # ds). \<not> float_lt (Num 100) x)"
          using I by (simp del: fold_simps)
        show "max_intensity_value ?fin \<noteq> NaN" using I by (simp del: fold_simps)
        show "min_intensity_value ?fin \<noteq> NaN" using I by (simp del: fold_simps)
        show "max_intensity_value ?fin \<in> set (d0 # ds)" using I by (simp del: fold_simps)
        show "min_intensity_value ?fin \<in> set (d0 # ds)" using I by (simp del: fold_simps)
        show "\<forall>x \<in> set (d0 # ds). \<not> float_lt (max_intensity_value ?fin) x"
          using I by (simp del: fold_simps)
        show "\<forall>x \<in> set (d0 # ds). \<not> float_lt x (min_intensity_value ?fin)"
          using I by (simp del: fold_simps)
      qed
      have rng: "(\<forall>x \<in> set (d0 # ds). \<not> float_lt x (Num 0)) \<and> (\<forall>x \<in> set (d0 # ds). \<not> float_lt (Num 100) x)
          \<longleftrightarrow> (\<forall>x \<in> set (d0 # ds). x = NaN \<or> in_range x)"
        using in_range_iff by (metis float_lt_NaN)
      have mx: "(\<forall>x \<in> set (d0 # ds). x = NaN \<or> in_range x) \<Longrightarrow>
          max_intensity_value ?fin = Num 100 \<longleftrightarrow> Num 100 \<in> set (d0 # ds)"
      proof
        assume "max_intensity_value ?fin = Num 100"
        with inv(5) show "Num 100 \<in> set (d0 # ds)" by simp
      next
        assume r: "\<forall>x \<in> set (d0 # ds). x = NaN \<or> in_range x" and m: "Num 100 \<in> set (d0 # ds)"
        from inv(7) m have 1: "\<not> float_lt (max_intensity_value ?fin) (Num 100)" by blast
        from r inv(3,5) have "in_range (max_intensity_value ?fin)" by blast
        with inv(3) have 2: "\<not> float_lt (Num 100) (max_intensity_value ?fin)"
          by (simp add: in_range_iff)
        from 1 2 inv(3) float_lt_total[of "max_intensity_value ?fin" "Num 100"]
        show "max_intensity_value ?fin = Num 100" by auto
      qed
      have mn: "(\<forall>x \<in> set (d0 # ds). x = NaN \<or> in_range x) \<Longrightarrow>
          min_intensity_value ?fin = Num 0 \<longleftrightarrow> Num 0 \<in> set (d0 # ds)"
      proof
        assume "min_intensity_value ?fin = Num 0"
        with inv(6) show "Num 0 \<in> set (d0 # ds)" by simp
      next
        assume r: "\<forall>x \<in> set (d0 # ds). x = NaN \<or> in_range x" and m: "Num 0 \<in> set (d0 # ds)"
        from inv(8) m have 1: "\<not> float_lt (Num 0) (min_intensity_value ?fin)" by blast
        from r inv(4,6) have "in_range (min_intensity_value ?fin)" by blast
        with inv(4) have 2: "\<not> float_lt (min_intensity_value ?fin) (Num 0)"
          by (simp add: in_range_iff)
        from 1 2 inv(4) float_lt_total[of "min_intensity_value ?fin" "Num 0"]
        show "min_intensity_value ?fin = Num 0" by auto
      qed
      have "valid (AuditSpectrumIntensity_audit fmt data self) \<longleftrightarrow>
          2 \<le> length ds \<and> (\<forall>x \<in> set (d0 # ds). x = NaN \<or> in_range x)
          \<and> Num 100 \<in> set (d0 # ds) \<and> Num 0 \<in> set (d0 # ds)"
        unfolding v inv(1,2) float_ne_Num[OF inv(3)] float_ne_Num[OF inv(4)]
        using rng mx mn by blast
      with False Some Cons show ?thesis by simp
    qed
  qed
qed

lemma AuditSpectrumIntensity_valid_reals:
  "valid (AuditSpectrumIntensity_audit fmt (Some (map Num rs)) self) \<longleftrightarrow>
     3 \<le> length rs \<and> (\<forall>r \<in> set rs. 0 \<le> r \<and> r \<le> 100) \<and> Max (set rs) = 100 \<and> Min (set rs) = 0"
proof (cases rs)
  case Nil
  then show ?thesis by (simp add: intensity_valid_iff)
next
  case (Cons r0 rs')
  have fin: "finite (set rs)" "set rs \<noteq> {}" using Cons by auto
  have mx: "(\<forall>r \<in> set rs. 0 \<le> r \<and> r \<le> 100) \<Longrightarrow> Max (set rs) = 100 \<longleftrightarrow> 100 \<in> set rs"
    using fin by (metis Max_in Max_eqI)
  have mn: "(\<forall>r \<in> set rs. 0 \<le> r \<and> r \<le> 100) \<Longrightarrow> Min (set rs) = 0 \<longleftrightarrow> 0 \<in> set rs"
    using fin by (metis Min_in Min_eqI)
  have "valid (AuditSpectrumIntensity_audit fmt (Some (map Num rs)) self) \<longleftrightarrow>
     3 \<le> length rs \<and> (\<forall>r \<in> set rs. 0 \<le> r \<and> r \<le> 100) \<and> 100 \<in> set rs \<and> 0 \<in> set rs"
    unfolding intensity_valid_iff Cons
    by (auto simp: in_range_def image_iff)
  with mx mn show ?thesis by blast
qed

text \<open>
  C9 (as first stated): \<^verbatim>\<open>valid\<close> is true if and only if the list has at least three
  points, every value lies in [0, 100], the maximum is 100 and the minimum is 0. This
  fails on a list that holds a NaN: on \<^verbatim>\<open>[0.0, nan, 100.0]\<close> the verdict is
  \<^verbatim>\<open>valid = True\<close> although NaN is not a value of [0, 100].
\<close>

theorem AuditSpectrumIntensity_NaN_valid:
  "valid (AuditSpectrumIntensity_audit (\<lambda>x. []) (Some [Num 0, NaN, Num 100]) AbstractAudit_init)
   \<and> NaN \<in> set [Num 0, NaN, Num 100] \<and> \<not> in_range NaN"
  by (simp add: AuditSpectrumIntensity_audit_def AuditSpectrumIntensity_step_def float_gt_def
      float_ne_def in_range_def Let_def)

text \<open>
  C9 (amended): for every intensity list of floats (or \<^verbatim>\<open>None\<close>),
  \<^verbatim>\<open>AuditSpectrumIntensity.audit\<close> sets \<^verbatim>\<open>valid\<close> to true if and only if the list has at
  least three points, its first entry is not NaN, every entry that is not NaN lies in
  [0, 100], and both 100 and 0 occur in the list (a NaN after the first entry is
  ignored). In particular, for every list of finite floats, \<^verbatim>\<open>valid\<close> is true if and
  only if the list has at least three points, every value lies in [0, 100], the
  largest value is 100 and the smallest value is 0.
\<close>

theorem AuditSpectrumIntensity_valid_iff:
  "(valid (AuditSpectrumIntensity_audit fmt data self) \<longleftrightarrow>
     (\<exists>d0 ds. data = Some (d0 # ds) \<and> 2 \<le> length ds \<and> d0 \<noteq> NaN
        \<and> (\<forall>x \<in> set (d0 # ds). x = NaN \<or> in_range x)
        \<and> Num 100 \<in> set (d0 # ds) \<and> Num 0 \<in> set (d0 # ds)))
   \<and> (valid (AuditSpectrumIntensity_audit fmt (Some (map Num rs)) self) \<longleftrightarrow>
        3 \<le> length rs \<and> (\<forall>r \<in> set rs. 0 \<le> r \<and> r \<le> 100)
        \<and> Max (set rs) = 100 \<and> Min (set rs) = 0)"
  using intensity_valid_iff[of fmt data self]
    AuditSpectrumIntensity_valid_reals[of fmt rs self]
  by (rule conjI)

theorem AuditSpectrumIntensity_valid_iff_witness:
  "valid (AuditSpectrumIntensity_audit (\<lambda>x. []) (Some [Num 0, Num 50, NaN, Num 100, Num 0])
      AbstractAudit_init)
   \<and> \<not> valid (AuditSpectrumIntensity_audit (\<lambda>x. []) (Some [NaN, Num 0, Num 100])
      AbstractAudit_init)
   \<and> valid (AuditSpectrumIntensity_audit (\<lambda>x. []) (Some (map Num [0, 50, 100, 50, 0]))
      AbstractAudit_init)
   \<and> 3 \<le> length [0, 50, 100, 50, 0 :: real] \<and> Max (set [0, 50, 100, 50, 0 :: real]) = 100
   \<and> Min (set [0, 50, 100, 50, 0 :: real]) = 0
   \<and> \<not> valid (AuditSpectrumIntensity_audit (\<lambda>x. []) (Some (map Num [0, 50, 99]))
      AbstractAudit_init)"
  using AuditSpectrumIntensity_valid_iff[of "\<lambda>x. []"
      "Some [Num 0, Num 50, NaN, Num 100, Num 0]" AbstractAudit_init "[0, 50, 100, 50, 0]"]
    AuditSpectrumIntensity_valid_iff[of "\<lambda>x. []"
      "Some [NaN, Num 0, Num 100]" AbstractAudit_init "[0, 50, 99]"]
  by (simp add: in_range_def)

subsection \<open>\<^verbatim>\<open>reset\<close>\<close>

text \<open>
  C10: in the scope of \<^verbatim>\<open>tools/auditor.py\<close>, \<^verbatim>\<open>AbstractAudit.reset\<close> raises
  \<^verbatim>\<open>NameError\<close> for every state of the validator and leaves the validator as it was
  (it is not reset to the unchecked state), and \<^verbatim>\<open>Auditor.reset\<close>, whose first call
  is \<^verbatim>\<open>self.header.reset()\<close>, raises \<^verbatim>\<open>NameError\<close> for every state of the auditor and
  leaves it as it was.
\<close>

theorem reset_raises_NameError:
  "AbstractAudit_reset (auditor_globals @ python_builtins) self = (self, Some NameError)
   \<and> Auditor_reset (auditor_globals @ python_builtins) a = (a, Some NameError)"
  by (simp add: AbstractAudit_reset_def Auditor_reset_def load_global_def
      auditor_globals_def python_builtins_def)

theorem reset_raises_NameError_witness:
  "AbstractAudit_reset (auditor_globals @ python_builtins)
      \<lparr>valid = True, errors = ErrorList []\<rparr>
     = (\<lparr>valid = True, errors = ErrorList []\<rparr>, Some NameError)"
  using reset_raises_NameError[of "\<lparr>valid = True, errors = ErrorList []\<rparr>"]
  by (rule conjunct1)

end
